theory Spec2Isabelle
  imports Complex_Main "HOL-Library.AList"
begin

section \<open>JavaScript values\<close>

text \<open>
  The catalogue's services, its HTTP route, the Redux slice and the product form are
  TypeScript. Their values are modelled by one datatype of values, over a type of numbers.
\<close>

text \<open>
  A number is a double: a finite value, kept as the rational it is, or \<open>NaN\<close>, or an
  infinity; the flag of \<open>JInfinity\<close> is the sign, \<open>True\<close> for \<open>+Infinity\<close>. Signed zero is
  not told apart from zero.
\<close>

datatype jsnum = JNum rat | JNaN | JInfinity bool

text \<open>
  The result of an arithmetic operation is the exact result rounded to the nearest
  double, a tie going to the even significand. \<open>binade n e x\<close> looks for the exponent of
  the power of two at or below \<open>x\<close>, from \<open>e\<close> downwards and for at most \<open>n\<close> steps; from
  1023 and for 2097 steps it covers the exponents of the doubles, and ends at the exponent
  -1074 of the smallest one. The unit in the last place is 52 binary places below the
  exponent, and not below \<open>2^-1074\<close>. A rounded magnitude of \<open>2^1024\<close> or more is an
  infinity.
\<close>

fun binade :: "nat \<Rightarrow> int \<Rightarrow> rat \<Rightarrow> int" where
  "binade 0 e x = e"
| "binade (Suc n) e x = (if 2 powi e \<le> x then e else binade n (e - 1) x)"

definition round_half_even :: "rat \<Rightarrow> int" where
  "round_half_even r =
     (if r - of_int \<lfloor>r\<rfloor> < 1 / 2 then \<lfloor>r\<rfloor>
      else if 1 / 2 < r - of_int \<lfloor>r\<rfloor> then \<lfloor>r\<rfloor> + 1
      else if even \<lfloor>r\<rfloor> then \<lfloor>r\<rfloor> else \<lfloor>r\<rfloor> + 1)"

definition to_double :: "rat \<Rightarrow> jsnum" where
  "to_double x =
     (let e = binade 2097 1023 \<bar>x\<bar>;
          u = 2 powi (max (e - 52) (- 1074));
          m = round_half_even (\<bar>x\<bar> / u)
      in if 2 powi 1024 \<le> of_int m * u then JInfinity (0 < x)
         else JNum (sgn x * of_int m * u))"

text \<open>\<open>a < b\<close>: every comparison with \<open>NaN\<close> is false.\<close>

fun js_lt :: "jsnum \<Rightarrow> jsnum \<Rightarrow> bool" where
  "js_lt (JNum a) (JNum b) = (a < b)"
| "js_lt JNaN _ = False"
| "js_lt _ JNaN = False"
| "js_lt (JNum a) (JInfinity s) = s"
| "js_lt (JInfinity s) (JNum b) = (\<not> s)"
| "js_lt (JInfinity s) (JInfinity t) = (\<not> s \<and> t)"

text \<open>\<open>a > b\<close>\<close>

definition js_gt :: "jsnum \<Rightarrow> jsnum \<Rightarrow> bool" where
  "js_gt a b = js_lt b a"

text \<open>\<open>a - b\<close>\<close>

fun js_sub :: "jsnum \<Rightarrow> jsnum \<Rightarrow> jsnum" where
  "js_sub (JNum a) (JNum b) = to_double (a - b)"
| "js_sub JNaN _ = JNaN"
| "js_sub _ JNaN = JNaN"
| "js_sub (JNum a) (JInfinity s) = JInfinity (\<not> s)"
| "js_sub (JInfinity s) (JNum b) = JInfinity s"
| "js_sub (JInfinity s) (JInfinity t) = (if s = t then JNaN else JInfinity s)"

text \<open>\<open>a * b\<close>: an infinity times zero is \<open>NaN\<close>.\<close>

fun js_mul :: "jsnum \<Rightarrow> jsnum \<Rightarrow> jsnum" where
  "js_mul (JNum a) (JNum b) = to_double (a * b)"
| "js_mul JNaN _ = JNaN"
| "js_mul _ JNaN = JNaN"
| "js_mul (JNum a) (JInfinity s) = (if a = 0 then JNaN else JInfinity (s = (0 < a)))"
| "js_mul (JInfinity s) (JNum b) = (if b = 0 then JNaN else JInfinity (s = (0 < b)))"
| "js_mul (JInfinity s) (JInfinity t) = JInfinity (s = t)"

text \<open>
  \<open>a / b\<close>. A division by zero gives an infinity, or \<open>NaN\<close> for \<open>0 / 0\<close>; a finite number
  over an infinity is zero.
\<close>

fun js_div :: "jsnum \<Rightarrow> jsnum \<Rightarrow> jsnum" where
  "js_div (JNum a) (JNum b) =
     (if b = 0 then (if a = 0 then JNaN else JInfinity (0 < a))
      else to_double (a / b))"
| "js_div JNaN _ = JNaN"
| "js_div _ JNaN = JNaN"
| "js_div (JNum a) (JInfinity s) = JNum 0"
| "js_div (JInfinity s) (JNum b) = JInfinity (s = (0 \<le> b))"
| "js_div (JInfinity s) (JInfinity t) = JNaN"

text \<open>\<open>Math.ceil(a)\<close>\<close>

fun js_ceil :: "jsnum \<Rightarrow> jsnum" where
  "js_ceil (JNum a) = JNum (of_int \<lceil>a\<rceil>)"
| "js_ceil JNaN = JNaN"
| "js_ceil (JInfinity s) = JInfinity s"

text \<open>
  A string is the list of its code units, for text of code units below 256 (Latin-1); a
  \<open>Date\<close> is its millisecond count, an \<open>ObjectId\<close> is its 24-digit hexadecimal form in
  lower case, and an object is the list of its own properties in insertion order.
\<close>

datatype jsval =
    Undefined
  | Null
  | Bool bool
  | Num jsnum
  | Str string
  | Date nat
  | Oid string
  | Arr "jsval list"
  | Obj "(string \<times> jsval) list"

type_synonym obj = "(string \<times> jsval) list"

text \<open>\<open>o.k\<close>: reading a property that the object does not have gives \<open>undefined\<close>.\<close>

definition get_prop :: "obj \<Rightarrow> string \<Rightarrow> jsval" where
  "get_prop ob k = (case map_of ob k of None \<Rightarrow> Undefined | Some v \<Rightarrow> v)"

text \<open>\<open>k in o\<close>: the object has the property, whatever its value.\<close>

definition has_prop :: "obj \<Rightarrow> string \<Rightarrow> bool" where
  "has_prop ob k = (map_of ob k \<noteq> None)"

text \<open>
  \<open>o.k = v\<close>, and one entry of an object literal: an existing property keeps its place
  and takes the new value, a new property goes to the end.
\<close>

definition set_prop :: "string \<Rightarrow> jsval \<Rightarrow> obj \<Rightarrow> obj" where
  "set_prop k v ob = AList.update k v ob"

text \<open>\<open>{...a, ...b}\<close>: the properties of \<open>b\<close> are written over \<open>a\<close>, in the order of \<open>b\<close>.\<close>

definition spread :: "obj \<Rightarrow> obj \<Rightarrow> obj" where
  "spread b a = fold (\<lambda>(k, v). set_prop k v) b a"

text \<open>
  \<open>String.prototype.trim\<close>: white space and line terminators are removed from both ends.
  Below 256 these are tab, line feed, vertical tab, form feed, carriage return, space and
  the no-break space.
\<close>

definition js_whitespace :: "char \<Rightarrow> bool" where
  "js_whitespace c =
     (c \<in> {CHR 0x09, CHR 0x0A, CHR 0x0B, CHR 0x0C, CHR 0x0D, CHR '' '', CHR 0xA0})"

definition trim :: "string \<Rightarrow> string" where
  "trim s = rev (dropWhile js_whitespace (rev (dropWhile js_whitespace s)))"

text \<open>Decimal digits of a natural number, as \<open>Number.prototype.toString\<close> prints it.\<close>

fun show_nat :: "nat \<Rightarrow> string" where
  "show_nat n =
     (if n < 10 then [char_of (48 + n)]
      else show_nat (n div 10) @ [char_of (48 + n mod 10)])"

declare show_nat.simps [simp del]

section \<open>The product form: variations and their images\<close>

text \<open>
  \<^verbatim>\<open>src/components/dashboard/common/ProductAnglesSelector.tsx\<close>, component
  \<open>ProductFormDialog\<close>. The \<open>url\<close> and \<open>alt_text\<close> of an image and the \<open>images\<close> of a
  variation are read only through guards that treat \<open>null\<close> and \<open>undefined\<close> alike; they
  are an \<open>option\<close>, with \<open>None\<close> for both.
\<close>

record VariationImage =
  image_id :: string
  url :: "string option"
  alt_text :: "string option"
  angle :: string
  is_primary :: bool

record Color =
  color_name :: string
  hex_code :: string
  swatch_image :: "string option"

record Variation =
  variation_id :: string
  color :: Color
  price :: rat
  inStock :: bool
  stockQuantity :: rat
  images :: "VariationImage list option"

text \<open>
  The fields of the form's values that submission reads or writes. The other fields
  (name, price, category, purchase limit and so on) are carried along by the spread
  \<open>...values\<close>; they are the extension part of the record. The angle image and alt text
  fields are strings, which the form initialises with \<open>initialValues.x || ""\<close>, or
  \<open>undefined\<close>, which is \<open>None\<close> here.
\<close>

record FormValues =
  hasVariations :: bool
  variations :: "Variation list option"
  angles :: "string list option"
  frontImage :: "string option"
  backImage :: "string option"
  leftImage :: "string option"
  rightImage :: "string option"
  materialImage :: "string option"
  frontAltText :: "string option"
  backAltText :: "string option"
  leftAltText :: "string option"
  rightAltText :: "string option"
  materialAltText :: "string option"

text \<open>Truthiness of a string-valued field: present and not the empty string.\<close>

definition truthy_str :: "string option \<Rightarrow> bool" where
  "truthy_str f = (case f of None \<Rightarrow> False | Some s \<Rightarrow> s \<noteq> [])"

text \<open>\<open>img.url && img.url.trim() !== ''\<close>\<close>

definition has_url :: "VariationImage \<Rightarrow> bool" where
  "has_url img = (case url img of None \<Rightarrow> False | Some u \<Rightarrow> u \<noteq> [] \<and> trim u \<noteq> [])"

text \<open>
  The image list of a variation where the code guards the read: \<open>variation.images || []\<close>
  on submission, \<open>Array.isArray(variation.images) ? [...variation.images] : []\<close> in the editor.
\<close>

definition image_list :: "Variation \<Rightarrow> VariationImage list" where
  "image_list v = (case images v of None \<Rightarrow> [] | Some imgs \<Rightarrow> imgs)"

text \<open>\<open>variation.images?.filter(...) || []\<close>\<close>

definition clean_variation :: "Variation \<Rightarrow> Variation" where
  "clean_variation v = v\<lparr>images := Some (filter has_url (image_list v))\<rparr>"

text \<open>\<open>values.variations?.map(...) || []\<close>\<close>

definition clean_variations :: "Variation list option \<Rightarrow> Variation list" where
  "clean_variations vs = (case vs of None \<Rightarrow> [] | Some l \<Rightarrow> map clean_variation l)"

text \<open>The five \<open>if (cleanedValues.xImage) angles.push('x')\<close> statements, in their order.\<close>

definition derive_angles :: "'a FormValues_scheme \<Rightarrow> string list" where
  "derive_angles v =
     (if truthy_str (frontImage v) then [''front''] else []) @
     (if truthy_str (backImage v) then [''back''] else []) @
     (if truthy_str (leftImage v) then [''left''] else []) @
     (if truthy_str (rightImage v) then [''right''] else []) @
     (if truthy_str (materialImage v) then [''material''] else [])"

text \<open>\<open>if (cleanedValues[field] === undefined) cleanedValues[field] = ''\<close>\<close>

definition required_field :: "string option \<Rightarrow> string option" where
  "required_field f = (case f of None \<Rightarrow> Some [] | Some s \<Rightarrow> Some s)"

text \<open>
  The body of \<open>onSubmit\<close> up to the call of the parent's \<open>onSubmit\<close>: the value it
  returns is the \<open>cleanedValues\<close> handed to that call.
\<close>

definition cleanedValues :: "'a FormValues_scheme \<Rightarrow> 'a FormValues_scheme" where
  "cleanedValues values =
     (let cleaned = values\<lparr>variations := Some (clean_variations (variations values))\<rparr>
      in if \<not> hasVariations cleaned
         then cleaned\<lparr>angles := Some (derive_angles cleaned),
                      frontImage := required_field (frontImage cleaned),
                      backImage := required_field (backImage cleaned),
                      leftImage := required_field (leftImage cleaned),
                      rightImage := required_field (rightImage cleaned),
                      materialImage := required_field (materialImage cleaned),
                      frontAltText := required_field (frontAltText cleaned),
                      backAltText := required_field (backAltText cleaned),
                      leftAltText := required_field (leftAltText cleaned),
                      rightAltText := required_field (rightAltText cleaned),
                      materialAltText := required_field (materialAltText cleaned)\<rparr>
         else cleaned)"

text \<open>
  \<open>createVariationsCopy\<close>: a fresh list of fresh variations, each with a fresh image
  list; an \<open>images\<close> that is not an array becomes the empty array.
\<close>

definition createVariationsCopy :: "Variation list \<Rightarrow> Variation list" where
  "createVariationsCopy vs =
     map (\<lambda>v. v\<lparr>images := Some (image_list v)\<rparr>) vs"

text \<open>
  \<open>addVariationImage\<close>. The first argument is the reading of \<open>Date.now()\<close>. The result
  is the list given to \<open>formik.setFieldValue("variations", ...)\<close>, or \<open>None\<close> when the
  function returns before that call.
\<close>

definition addVariationImage ::
  "nat \<Rightarrow> int \<Rightarrow> string \<Rightarrow> Variation list \<Rightarrow> Variation list option" where
  "addVariationImage now varIdx ang vs =
     (if varIdx < 0 \<or> varIdx \<ge> int (length vs) then None
      else
        let copy = createVariationsCopy vs;
            v = copy ! nat varIdx;
            imgs = image_list v;
            newImage = \<lparr>image_id = ''img_'' @ show_nat now, url = Some [], alt_text = Some [],
                         angle = ang, is_primary = (length imgs = 0)\<rparr>
        in Some (copy[nat varIdx := v\<lparr>images := Some (imgs @ [newImage])\<rparr>]))"

subsection \<open>Submission\<close>

lemma has_url_nonempty: "has_url img \<Longrightarrow> url img \<noteq> None \<and> url img \<noteq> Some []"
  by (auto simp: has_url_def split: option.splits)

lemma truthy_str_iff: "truthy_str f = (f \<noteq> None \<and> f \<noteq> Some [])"
  by (cases f) (simp_all add: truthy_str_def)

lemma image_list_clean_variation:
  "image_list (clean_variation v) = filter has_url (image_list v)"
  by (simp add: clean_variation_def image_list_def)

lemma variations_cleanedValues:
  "variations (cleanedValues vals) = Some (clean_variations (variations vals))"
  by (simp add: cleanedValues_def Let_def)

lemma angles_cleanedValues:
  "\<not> hasVariations vals \<Longrightarrow> angles (cleanedValues vals) = Some (derive_angles vals)"
  by (simp add: cleanedValues_def Let_def derive_angles_def)

text \<open>The variations of a form value, \<open>values.variations || []\<close>.\<close>

definition submitted_variations :: "'a FormValues_scheme \<Rightarrow> Variation list" where
  "submitted_variations vals = (case variations vals of None \<Rightarrow> [] | Some l \<Rightarrow> l)"

text \<open>
  Claim C8. On submission the variations keep their number and order, each keeps exactly
  its images that have a URL, so no image whose URL is missing or empty is submitted;
  and for a product without variations the submitted \<open>angles\<close> are the names, in the
  order front, back, left, right, material, of the angle-image fields that are present
  and not empty. A form with only \<open>frontImage\<close> set submits \<open>angles = ["front"]\<close>.
\<close>

theorem submission_cleaning:
  "(length (submitted_variations (cleanedValues vals)) = length (submitted_variations vals)
    \<and> (\<forall>i < length (submitted_variations vals).
          image_list (submitted_variations (cleanedValues vals) ! i)
            = filter has_url (image_list (submitted_variations vals ! i))
        \<and> (\<forall>img \<in> set (image_list (submitted_variations (cleanedValues vals) ! i)).
              url img \<noteq> None \<and> url img \<noteq> Some [])))
   \<and> (\<not> hasVariations vals \<longrightarrow>
         angles (cleanedValues vals) =
           Some (map fst (filter (\<lambda>(n, f). f \<noteq> None \<and> f \<noteq> Some [])
             [(''front'', frontImage vals), (''back'', backImage vals),
              (''left'', leftImage vals), (''right'', rightImage vals),
              (''material'', materialImage vals)])))
   \<and> (\<not> hasVariations vals \<and> frontImage vals = Some u \<and> u \<noteq> []
        \<and> \<not> truthy_str (backImage vals) \<and> \<not> truthy_str (leftImage vals)
        \<and> \<not> truthy_str (rightImage vals) \<and> \<not> truthy_str (materialImage vals) \<longrightarrow>
         angles (cleanedValues vals) = Some [''front''])"
proof (intro conjI impI)
  have b: "submitted_variations (cleanedValues vals) = map clean_variation (submitted_variations vals)"
    by (simp add: variations_cleanedValues submitted_variations_def clean_variations_def
          split: option.splits)
  show "length (submitted_variations (cleanedValues vals)) = length (submitted_variations vals)"
    by (simp add: b)
  show "\<forall>i < length (submitted_variations vals).
          image_list (submitted_variations (cleanedValues vals) ! i)
            = filter has_url (image_list (submitted_variations vals ! i))
        \<and> (\<forall>img \<in> set (image_list (submitted_variations (cleanedValues vals) ! i)).
              url img \<noteq> None \<and> url img \<noteq> Some [])"
    using has_url_nonempty by (simp add: b image_list_clean_variation)
next
  assume "\<not> hasVariations vals"
  then show "angles (cleanedValues vals) =
           Some (map fst (filter (\<lambda>(n, f). f \<noteq> None \<and> f \<noteq> Some [])
             [(''front'', frontImage vals), (''back'', backImage vals),
              (''left'', leftImage vals), (''right'', rightImage vals),
              (''material'', materialImage vals)]))"
    by (simp add: angles_cleanedValues derive_angles_def truthy_str_iff)
next
  assume "\<not> hasVariations vals \<and> frontImage vals = Some u \<and> u \<noteq> []
        \<and> \<not> truthy_str (backImage vals) \<and> \<not> truthy_str (leftImage vals)
        \<and> \<not> truthy_str (rightImage vals) \<and> \<not> truthy_str (materialImage vals)"
  then show "angles (cleanedValues vals) = Some [''front'']"
    by (simp add: angles_cleanedValues derive_angles_def truthy_str_def)
qed

text \<open>A single product with one image field set, and a variation with three images.\<close>

definition mug_form :: FormValues where
  "mug_form = \<lparr>hasVariations = False,
     variations = Some [\<lparr>variation_id = ''v1'',
        color = \<lparr>color_name = ''Red'', hex_code = ''#FF0000'', swatch_image = None\<rparr>,
        price = 10, inStock = True, stockQuantity = 3,
        images = Some [
          \<lparr>image_id = ''i1'', url = Some ''u1'', alt_text = None, angle = ''front'', is_primary = True\<rparr>,
          \<lparr>image_id = ''i2'', url = Some [], alt_text = None, angle = ''back'', is_primary = False\<rparr>,
          \<lparr>image_id = ''i3'', url = None, alt_text = None, angle = ''left'', is_primary = False\<rparr>]\<rparr>],
     angles = None,
     frontImage = Some ''u1'', backImage = Some [], leftImage = None, rightImage = Some [],
     materialImage = Some [],
     frontAltText = None, backAltText = None, leftAltText = None, rightAltText = None,
     materialAltText = None\<rparr>"

theorem submission_cleaning_witness:
  "\<not> hasVariations mug_form
   \<and> 0 < length (submitted_variations mug_form)
   \<and> map image_id (image_list (submitted_variations (cleanedValues mug_form) ! 0)) = [''i1'']
   \<and> angles (cleanedValues mug_form) = Some [''front'']"
proof -
  have h: "\<not> hasVariations mug_form \<and> frontImage mug_form = Some ''u1'' \<and> ''u1'' \<noteq> []
        \<and> \<not> truthy_str (backImage mug_form) \<and> \<not> truthy_str (leftImage mug_form)
        \<and> \<not> truthy_str (rightImage mug_form) \<and> \<not> truthy_str (materialImage mug_form)"
    by (simp add: mug_form_def truthy_str_def)
  have l: "0 < length (submitted_variations mug_form)"
    by (simp add: mug_form_def submitted_variations_def)
  have f: "filter has_url (image_list (submitted_variations mug_form ! 0))
            = [\<lparr>image_id = ''i1'', url = Some ''u1'', alt_text = None, angle = ''front'', is_primary = True\<rparr>]"
    by (simp add: mug_form_def submitted_variations_def image_list_def has_url_def trim_def
          js_whitespace_def)
  note t = submission_cleaning [of mug_form "''u1''"]
  from t l have "image_list (submitted_variations (cleanedValues mug_form) ! 0)
            = filter has_url (image_list (submitted_variations mug_form ! 0))"
    by blast
  with f have i: "map image_id (image_list (submitted_variations (cleanedValues mug_form) ! 0)) = [''i1'']"
    by simp
  from t h have a: "angles (cleanedValues mug_form) = Some [''front'']"
    by blast
  from h l i a show ?thesis by blast
qed

subsection \<open>Adding an image to a variation\<close>

lemma createVariationsCopy_nth:
  "i < length vs \<Longrightarrow> image_list (createVariationsCopy vs ! i) = image_list (vs ! i)"
  by (simp add: createVariationsCopy_def image_list_def)

lemma length_createVariationsCopy: "length (createVariationsCopy vs) = length vs"
  by (simp add: createVariationsCopy_def)

lemma addVariationImage_invalid:
  "varIdx < 0 \<or> int (length vs) \<le> varIdx \<Longrightarrow> addVariationImage now varIdx ang vs = None"
  by (auto simp: addVariationImage_def)

text \<open>
  Claim C10. Adding an image to the variation at a valid index appends one image to that
  variation and leaves the other variations' images alone; the new image is primary
  exactly when the variation had no image before the add.
\<close>

theorem addVariationImage_primary:
  assumes "0 \<le> varIdx" and "varIdx < int (length vs)"
  shows "\<exists>vs' new.
           addVariationImage now varIdx ang vs = Some vs'
         \<and> length vs' = length vs
         \<and> image_list (vs' ! nat varIdx) = image_list (vs ! nat varIdx) @ [new]
         \<and> angle new = ang
         \<and> is_primary new = (image_list (vs ! nat varIdx) = [])
         \<and> (\<forall>j < length vs. j \<noteq> nat varIdx \<longrightarrow>
               image_list (vs' ! j) = image_list (vs ! j))"
proof -
  let ?i = "nat varIdx"
  let ?copy = "createVariationsCopy vs"
  let ?old = "image_list (vs ! ?i)"
  let ?new = "\<lparr>image_id = ''img_'' @ show_nat now, url = Some [], alt_text = Some [],
               angle = ang, is_primary = (length ?old = 0)\<rparr>"
  let ?vs' = "?copy[?i := (?copy ! ?i)\<lparr>images := Some (?old @ [?new])\<rparr>]"
  from assms have i: "?i < length vs" by linarith
  have old: "image_list (?copy ! ?i) = ?old"
    using i by (rule createVariationsCopy_nth)
  have run: "addVariationImage now varIdx ang vs = Some ?vs'"
    using assms by (simp add: addVariationImage_def Let_def old)
  have len: "length ?vs' = length vs"
    by (simp add: length_createVariationsCopy)
  have at: "image_list (?vs' ! ?i) = ?old @ [?new]"
    using i by (simp add: length_createVariationsCopy image_list_def)
  have others: "\<forall>j < length vs. j \<noteq> ?i \<longrightarrow> image_list (?vs' ! j) = image_list (vs ! j)"
    by (simp add: createVariationsCopy_nth)
  have prim: "is_primary ?new = (?old = [])" by simp
  have ang: "angle ?new = ang" by simp
  from run len at ang prim others show ?thesis by blast
qed



text \<open>A variation without images and a variation with one image.\<close>

definition two_variations :: "Variation list" where
  "two_variations =
     [\<lparr>variation_id = ''v1'',
        color = \<lparr>color_name = ''Red'', hex_code = ''#FF0000'', swatch_image = None\<rparr>,
        price = 10, inStock = True, stockQuantity = 3, images = Some []\<rparr>,
      \<lparr>variation_id = ''v2'',
        color = \<lparr>color_name = ''Blue'', hex_code = ''#0000FF'', swatch_image = None\<rparr>,
        price = 12, inStock = True, stockQuantity = 1,
        images = Some [\<lparr>image_id = ''i1'', url = Some ''u1'', alt_text = None,
                        angle = ''front'', is_primary = True\<rparr>]\<rparr>]"

theorem addVariationImage_primary_witness:
  "(\<exists>vs' new. addVariationImage 1700000000000 0 ''back'' two_variations = Some vs'
       \<and> image_list (vs' ! 0) = [new] \<and> is_primary new)
   \<and> (\<exists>vs' new. addVariationImage 1700000000000 1 ''back'' two_variations = Some vs'
       \<and> length (image_list (vs' ! 1)) = 2 \<and> last (image_list (vs' ! 1)) = new
       \<and> \<not> is_primary new)"
proof -
  have e0: "image_list (two_variations ! 0) = []"
    by (simp add: two_variations_def image_list_def)
  have e1: "length (image_list (two_variations ! 1)) = 1"
    by (simp add: two_variations_def image_list_def)
  have l: "(0::int) \<le> 0" "(0::int) < int (length two_variations)"
          "(0::int) \<le> 1" "(1::int) < int (length two_variations)"
    by (simp_all add: two_variations_def)
  from addVariationImage_primary [OF l(1) l(2), of 1700000000000 "''back''"]
  obtain vs0 new0 where r0: "addVariationImage 1700000000000 0 ''back'' two_variations = Some vs0"
    and i0: "image_list (vs0 ! nat 0) = image_list (two_variations ! nat 0) @ [new0]"
    and p0: "is_primary new0 = (image_list (two_variations ! nat 0) = [])"
    by blast
  from i0 p0 e0 have a0: "image_list (vs0 ! 0) = [new0] \<and> is_primary new0"
    by simp
  from addVariationImage_primary [OF l(3) l(4), of 1700000000000 "''back''"]
  obtain vs1 new1 where r1: "addVariationImage 1700000000000 1 ''back'' two_variations = Some vs1"
    and i1: "image_list (vs1 ! nat 1) = image_list (two_variations ! nat 1) @ [new1]"
    and p1: "is_primary new1 = (image_list (two_variations ! nat 1) = [])"
    by blast
  from e1 have ne: "image_list (two_variations ! 1) \<noteq> []"
    by auto
  from i1 p1 e1 ne have a1: "length (image_list (vs1 ! 1)) = 2
      \<and> last (image_list (vs1 ! 1)) = new1 \<and> \<not> is_primary new1"
    by simp
  from r0 a0 r1 a1 show ?thesis by blast
qed

section \<open>The products slice of the client store\<close>

text \<open>
  \<^verbatim>\<open>src/lib/redux/slices/productsSlice.ts\<close>. \<open>PaginationParams\<close> and \<open>PaginatedResult\<close>
  are the interfaces of \<^verbatim>\<open>src/lib/services/productService.ts\<close>; both have a \<open>page\<close> and
  a \<open>limit\<close>, which the two records share. \<open>total_docs\<close> is the field \<open>total\<close>.
\<close>

record PageLimit =
  page :: jsnum
  limit :: jsnum

record PaginationParams = PageLimit +
  search :: "string option"
  categoryId :: "string option"

record Pagination = PageLimit +
  total_docs :: jsnum
  totalPages :: jsnum
  hasNext :: bool
  hasPrev :: bool

record 'a PaginatedResult =
  data :: "'a list"
  pagination_meta :: Pagination

text \<open>
  \<open>items\<close> is declared a list of products, but the legacy thunk can hand the reducer any
  JSON value, so the field holds a value. \<open>pageCache\<close> is a \<open>Record<number, Product[]>\<close>.
\<close>

record ProductsState =
  items :: jsval
  loading :: bool
  error :: "string option"
  pagination :: Pagination
  searchTerm :: string
  selectedCategory :: string
  pageCache :: "jsnum \<Rightarrow> jsval option"

definition initialState :: ProductsState where
  "initialState =
     \<lparr>items = Arr [], loading = False, error = None,
      pagination = \<lparr>page = JNum 1, limit = JNum 10, total_docs = JNum 0, totalPages = JNum 0,
                    hasNext = False, hasPrev = False\<rparr>,
      searchTerm = [], selectedCategory = ''all'', pageCache = Map.empty\<rparr>"

text \<open>
  The actions whose reducers are modelled: the plain reducers that do not push onto
  \<open>items\<close>, and the three outcomes of each of the two fetching thunks. A rejected action
  carries \<open>action.error.message\<close>, which may be undefined.
\<close>

datatype action =
    setProducts jsval
  | setLoading bool
  | setError "string option"
  | clearError
  | setPage jsnum
  | setSearchTerm string
  | setSelectedCategory string
  | clearPageCache
  | cachePage jsnum jsval
  | fetchProductsPaginated_pending
  | fetchProductsPaginated_fulfilled "obj PaginatedResult"
  | fetchProductsPaginated_rejected "string option"
  | fetchProducts_pending
  | fetchProducts_fulfilled jsval
  | fetchProducts_rejected "string option"

text \<open>
  \<open>v.k\<close> on any value: \<open>None\<close> is the TypeError of reading a property of \<open>null\<close> or
  \<open>undefined\<close>. An object gives its property. For the other values the result is
  \<open>undefined\<close>: of the names read here they have no \<open>data\<close>, and \<open>length\<close> is read only
  to see whether the read throws.
\<close>

fun js_member :: "jsval \<Rightarrow> string \<Rightarrow> jsval option" where
  "js_member Undefined k = None"
| "js_member Null k = None"
| "js_member (Obj ob) k = Some (get_prop ob k)"
| "js_member v k = Some Undefined"

text \<open>\<open>Array.isArray(v)\<close>\<close>

fun isArray :: "jsval \<Rightarrow> bool" where
  "isArray (Arr xs) = True"
| "isArray v = False"

text \<open>\<open>message || fallback\<close>\<close>

definition or_default :: "string option \<Rightarrow> string \<Rightarrow> string" where
  "or_default message fallback =
     (case message of None \<Rightarrow> fallback | Some m \<Rightarrow> if m = [] then fallback else m)"

text \<open>
  The reducer, as the transition of the store's state. The logging statement of the
  \<open>fetchProducts.fulfilled\<close> case reads \<open>state.items.length\<close> after the assignment; for a
  \<open>null\<close> or \<open>undefined\<close> payload that read throws and the store keeps its state.
\<close>

fun productsSlice :: "ProductsState \<Rightarrow> action \<Rightarrow> ProductsState" where
  "productsSlice state (setProducts payload) = state\<lparr>items := payload\<rparr>"
| "productsSlice state (setLoading payload) = state\<lparr>loading := payload\<rparr>"
| "productsSlice state (setError payload) = state\<lparr>error := payload\<rparr>"
| "productsSlice state clearError = state\<lparr>error := None\<rparr>"
| "productsSlice state (setPage payload) =
     state\<lparr>pagination := (pagination state)\<lparr>page := payload\<rparr>\<rparr>"
| "productsSlice state (setSearchTerm payload) =
     state\<lparr>searchTerm := payload, pagination := (pagination state)\<lparr>page := JNum 1\<rparr>\<rparr>"
| "productsSlice state (setSelectedCategory payload) =
     state\<lparr>selectedCategory := payload, pagination := (pagination state)\<lparr>page := JNum 1\<rparr>\<rparr>"
| "productsSlice state clearPageCache = state\<lparr>pageCache := Map.empty\<rparr>"
| "productsSlice state (cachePage p products) =
     state\<lparr>pageCache := (pageCache state)(p \<mapsto> products)\<rparr>"
| "productsSlice state fetchProductsPaginated_pending = state\<lparr>loading := True, error := None\<rparr>"
| "productsSlice state (fetchProductsPaginated_fulfilled payload) =
     state\<lparr>loading := False,
           items := Arr (map Obj (data payload)),
           pagination := pagination_meta payload,
           pageCache := (pageCache state)(page (pagination_meta payload) \<mapsto>
                          Arr (map Obj (data payload)))\<rparr>"
| "productsSlice state (fetchProductsPaginated_rejected message) =
     state\<lparr>loading := False, error := Some (or_default message ''Failed to fetch products'')\<rparr>"
| "productsSlice state fetchProducts_pending = state\<lparr>loading := True, error := None\<rparr>"
| "productsSlice state (fetchProducts_fulfilled payload) =
     (case js_member payload ''length'' of
        None \<Rightarrow> state
      | Some n \<Rightarrow> state\<lparr>loading := False, items := payload\<rparr>)"
| "productsSlice state (fetchProducts_rejected message) =
     state\<lparr>loading := False, error := Some (or_default message ''Failed to fetch products'')\<rparr>"

subsection \<open>The legacy thunk\<close>

text \<open>
  What \<open>fetch\<close> resolved to: the \<open>ok\<close> flag and the body as \<open>response.json()\<close> reads it,
  \<open>None\<close> when the body is not JSON.
\<close>

record http_response =
  ok :: bool
  json_body :: "jsval option"

datatype thunk_error = Error string | TypeError | SyntaxError

text \<open>
  The payload creator of \<open>fetchProducts\<close>. An array is truthy, so
  \<open>result.data && Array.isArray(result.data)\<close> is \<open>Array.isArray(result.data)\<close>.
\<close>

definition fetchProducts :: "http_response \<Rightarrow> thunk_error + jsval" where
  "fetchProducts response =
     (if \<not> ok response then Inl (Error ''Failed to fetch products'')
      else case json_body response of
             None \<Rightarrow> Inl SyntaxError
           | Some result \<Rightarrow>
               (case js_member result ''data'' of
                  None \<Rightarrow> Inl TypeError
                | Some d \<Rightarrow> if isArray d then Inr d else Inr result))"

subsection \<open>Properties of the slice\<close>

lemma or_default_nonempty: "fallback \<noteq> [] \<Longrightarrow> or_default message fallback \<noteq> []"
  by (simp add: or_default_def split: option.splits)

text \<open>
  Claim C7. Whatever the state and whatever the message of the rejected action, the
  reducer of \<open>fetchProductsPaginated.rejected\<close> clears \<open>loading\<close>, stores an error message
  (the action's, or the fixed text when that is undefined or empty; never \<open>null\<close> and
  never empty), and leaves \<open>items\<close>, \<open>pagination\<close>, \<open>searchTerm\<close>, \<open>selectedCategory\<close>
  and \<open>pageCache\<close> as they were.
\<close>

theorem fetchProductsPaginated_rejected_frame:
  "loading (productsSlice state (fetchProductsPaginated_rejected message)) = False
   \<and> error (productsSlice state (fetchProductsPaginated_rejected message))
       = Some (or_default message ''Failed to fetch products'')
   \<and> error (productsSlice state (fetchProductsPaginated_rejected message)) \<noteq> None
   \<and> or_default message ''Failed to fetch products'' \<noteq> []
   \<and> items (productsSlice state (fetchProductsPaginated_rejected message)) = items state
   \<and> pagination (productsSlice state (fetchProductsPaginated_rejected message)) = pagination state
   \<and> searchTerm (productsSlice state (fetchProductsPaginated_rejected message)) = searchTerm state
   \<and> selectedCategory (productsSlice state (fetchProductsPaginated_rejected message))
       = selectedCategory state
   \<and> pageCache (productsSlice state (fetchProductsPaginated_rejected message)) = pageCache state"
  by (simp add: or_default_nonempty)

text \<open>The state after page 2 of a three-page result has been fetched.\<close>

definition loaded_state :: ProductsState where
  "loaded_state =
     productsSlice (productsSlice initialState fetchProductsPaginated_pending)
       (fetchProductsPaginated_fulfilled
          \<lparr>data = [[(''id'', Str ''p1''), (''name'', Str ''Mug'')]],
           pagination_meta = \<lparr>page = JNum 2, limit = JNum 1, total_docs = JNum 3,
             totalPages = JNum 3, hasNext = True, hasPrev = True\<rparr>\<rparr>)"

theorem fetchProductsPaginated_rejected_frame_witness:
  "error (productsSlice (productsSlice loaded_state fetchProductsPaginated_pending)
            (fetchProductsPaginated_rejected None)) = Some ''Failed to fetch products''
   \<and> items (productsSlice (productsSlice loaded_state fetchProductsPaginated_pending)
            (fetchProductsPaginated_rejected None))
       = Arr [Obj [(''id'', Str ''p1''), (''name'', Str ''Mug'')]]
   \<and> page (pagination (productsSlice (productsSlice loaded_state fetchProductsPaginated_pending)
            (fetchProductsPaginated_rejected None))) = JNum 2"
proof -
  let ?s = "productsSlice loaded_state fetchProductsPaginated_pending"
  note t = fetchProductsPaginated_rejected_frame [of ?s None]
  have i: "items ?s = Arr [Obj [(''id'', Str ''p1''), (''name'', Str ''Mug'')]]"
    by (simp add: loaded_state_def)
  have p: "page (pagination ?s) = JNum 2"
    by (simp add: loaded_state_def)
  have d: "or_default None ''Failed to fetch products'' = ''Failed to fetch products''"
    by (simp add: or_default_def)
  from t i p d show ?thesis by simp
qed

lemma fetchProducts_not_ok:
  "\<not> ok response \<Longrightarrow> fetchProducts response = Inl (Error ''Failed to fetch products'')"
  by (simp add: fetchProducts_def)

lemma js_member_length: "js_member result k = Some d \<Longrightarrow> js_member result ''length'' \<noteq> None"
  by (cases result) simp_all

lemma isArray_length: "isArray d \<Longrightarrow> js_member d ''length'' \<noteq> None"
  by (cases d) simp_all

text \<open>
  Claim C5, as the code has it. For a successful response whose JSON body is not
  \<open>null\<close>: when the body's \<open>data\<close> property is a list the thunk returns that list;
  otherwise it returns the whole body as it came, and the reducer of
  \<open>fetchProducts.fulfilled\<close> stores what the thunk returned in \<open>items\<close>. Nothing is
  replaced by an empty list.
\<close>

theorem fetchProducts_payload:
  assumes "ok response" and "json_body response = Some result"
    and "js_member result ''data'' = Some d"
  shows "fetchProducts response = Inr (if isArray d then d else result)
       \<and> (\<not> isArray d \<longrightarrow>
            items (productsSlice state (fetchProducts_fulfilled result)) = result)
       \<and> (isArray d \<longrightarrow> items (productsSlice state (fetchProducts_fulfilled d)) = d)"
proof (intro conjI impI)
  show "fetchProducts response = Inr (if isArray d then d else result)"
    using assms by (simp add: fetchProducts_def)
  show "items (productsSlice state (fetchProducts_fulfilled result)) = result"
    using js_member_length [OF assms(3)] by auto
  show "items (productsSlice state (fetchProducts_fulfilled d)) = d" if "isArray d"
    using isArray_length [OF that] by auto
qed

text \<open>A response whose \<open>data\<close> is a string.\<close>

definition malformed_response :: http_response where
  "malformed_response = \<lparr>ok = True, json_body = Some (Obj [(''data'', Str ''oops'')])\<rparr>"

theorem fetchProducts_payload_witness:
  "fetchProducts malformed_response = Inr (Obj [(''data'', Str ''oops'')])
   \<and> items (productsSlice initialState (fetchProducts_fulfilled (Obj [(''data'', Str ''oops'')])))
       = Obj [(''data'', Str ''oops'')]"
proof -
  have a: "ok malformed_response"
    and b: "json_body malformed_response = Some (Obj [(''data'', Str ''oops'')])"
    and c: "js_member (Obj [(''data'', Str ''oops'')]) ''data'' = Some (Str ''oops'')"
    by (simp_all add: malformed_response_def get_prop_def)
  from fetchProducts_payload [OF a b c, of initialState] show ?thesis by simp
qed

text \<open>
  The claim as the specification states it fails: a body whose \<open>data\<close> is \<open>null\<close> is
  returned whole and becomes \<open>items\<close>, which is then not the empty list.
\<close>

theorem fetchProducts_not_coerced:
  "\<not> isArray (get_prop [(''data'', Null)] ''data'')
   \<and> fetchProducts \<lparr>ok = True, json_body = Some (Obj [(''data'', Null)])\<rparr>
     = Inr (Obj [(''data'', Null)])
   \<and> Obj [(''data'', Null)] \<noteq> Arr []
   \<and> items (productsSlice initialState (fetchProducts_fulfilled (Obj [(''data'', Null)])))
       \<noteq> Arr []"
  by (simp add: fetchProducts_def get_prop_def)

section \<open>Index creation\<close>

text \<open>
  \<open>ProductService.createIndexes\<close> in \<^verbatim>\<open>src/lib/services/productService.ts\<close> and
  \<open>initializeIndexes\<close> in \<^verbatim>\<open>src/lib/mongodb.ts\<close>. Both ask the store for the same four
  indexes of the products collection.
\<close>

datatype index_request =
    product_search_index
  | category_index
  | created_at_index
  | category_created_at_index

text \<open>An error thrown by the driver: a server error with its code, or a BSON error.\<close>

datatype store_error = MongoServerError nat string | BSONError string

text \<open>
  The store is a parameter of both routines: \<open>createIndex\<close> takes a request and the
  state of the store and gives the name of the index or an error, and the next state.
  Nothing is assumed of it, so it stands for every behaviour of the store, the error
  for an index that exists already among them.

  \<open>await_each\<close> is a sequence of awaited calls inside one \<open>try\<close> block: the first
  rejection leaves the block, and the later calls are not made.
\<close>

fun await_each ::
  "('r \<Rightarrow> 's \<Rightarrow> ('e + 'a) \<times> 's) \<Rightarrow> 'r list \<Rightarrow> 's \<Rightarrow> ('e + unit) \<times> 's" where
  "await_each f [] s = (Inr (), s)"
| "await_each f (r # rs) s =
     (case f r s of
        (Inl e, s') \<Rightarrow> (Inl e, s')
      | (Inr v, s') \<Rightarrow> await_each f rs s')"

text \<open>
  \<open>createIndexes\<close>. Its first argument is the outcome of \<open>getCollection()\<close>, which is
  awaited before the \<open>try\<close> block. The result is what the routine returns or throws,
  the lines it writes to the console, and the state of the store.
\<close>

definition createIndexes ::
  "store_error + unit \<Rightarrow> (index_request \<Rightarrow> 's \<Rightarrow> (store_error + string) \<times> 's) \<Rightarrow> 's
     \<Rightarrow> (store_error + unit) \<times> string list \<times> 's" where
  "createIndexes getCollection createIndex s =
     (case getCollection of
        Inl e \<Rightarrow> (Inl e, [], s)
      | Inr collection \<Rightarrow>
          (case await_each createIndex
                  [product_search_index, category_index, created_at_index,
                   category_created_at_index] s of
             (Inr u, s') \<Rightarrow> (Inr (), [''Database indexes created successfully''], s')
            | (Inl err, s') \<Rightarrow> (Inr (), [''Error creating indexes''], s')))"

text \<open>
  \<open>createIndex(...).catch(() => console.log(message))\<close> for each request of a list, the
  calls made in the order of the list: a rejection becomes a console line and the
  promise resolves to \<open>undefined\<close>, here \<open>None\<close>.
\<close>

fun caught_each ::
  "('r \<Rightarrow> 's \<Rightarrow> ('e + 'a) \<times> 's) \<Rightarrow> ('r \<times> string) list \<Rightarrow> 's
     \<Rightarrow> ('e + 'a option) list \<times> string list \<times> 's" where
  "caught_each f [] s = ([], [], s)"
| "caught_each f ((r, message) # rs) s =
     (case f r s of
        (outcome, s') \<Rightarrow>
          (case caught_each f rs s' of
             (promises, console, s'') \<Rightarrow>
               (case outcome of
                  Inl e \<Rightarrow> (Inr None # promises, message # console, s'')
                | Inr v \<Rightarrow> (Inr (Some v) # promises, console, s''))))"

text \<open>\<open>await Promise.all(promises)\<close>: rejected when one of the promises is.\<close>

fun Promise_all :: "('e + 'a) list \<Rightarrow> 'e + 'a list" where
  "Promise_all [] = Inr []"
| "Promise_all (Inl e # ps) = Inl e"
| "Promise_all (Inr v # ps) = (case Promise_all ps of Inl e \<Rightarrow> Inl e | Inr vs \<Rightarrow> Inr (v # vs))"

text \<open>
  \<open>initializeIndexes\<close>. Its first argument is the outcome of \<open>getDatabase()\<close>, awaited
  inside the \<open>try\<close> block. The four calls are started in the order written; the order
  in which the store answers them is the store's, and is part of the behaviour that the
  parameter \<open>createIndex\<close> stands for.
\<close>

definition initializeIndexes ::
  "store_error + unit \<Rightarrow> (index_request \<Rightarrow> 's \<Rightarrow> (store_error + string) \<times> 's) \<Rightarrow> 's
     \<Rightarrow> (store_error + unit) \<times> string list \<times> 's" where
  "initializeIndexes getDatabase createIndex s =
     (case getDatabase of
        Inl err \<Rightarrow> (Inr (), [''Error initializing indexes''], s)
      | Inr db \<Rightarrow>
          (case caught_each createIndex
                  [(product_search_index, ''Text search index already exists''),
                   (category_index, ''Category index already exists''),
                   (created_at_index, ''Creation date index already exists''),
                   (category_created_at_index, ''Compound index already exists'')] s of
             (promises, console, s') \<Rightarrow>
               (case Promise_all promises of
                  Inr vs \<Rightarrow>
                    (Inr (), ''Initializing database indexes...'' # console
                               @ [''Database indexes initialized successfully''], s')
                | Inl err \<Rightarrow>
                    (Inr (), ''Initializing database indexes...'' # console
                               @ [''Error initializing indexes''], s'))))"

text \<open>
  A store that refuses to create an index whose name it already holds, with the server's
  error for a conflicting index (code 85). Its state is the list of the names it holds.
\<close>

definition index_name :: "index_request \<Rightarrow> string" where
  "index_name r =
     (case r of
        product_search_index \<Rightarrow> ''product_search_index''
      | category_index \<Rightarrow> ''category_index''
      | created_at_index \<Rightarrow> ''created_at_index''
      | category_created_at_index \<Rightarrow> ''category_created_at_index'')"

definition refusing_createIndex ::
  "index_request \<Rightarrow> string list \<Rightarrow> (store_error + string) \<times> string list" where
  "refusing_createIndex r names =
     (if index_name r \<in> set names
      then (Inl (MongoServerError 85 ''Index already exists''), names)
      else (Inr (index_name r), names @ [index_name r]))"

subsection \<open>Index setup returns\<close>

lemma caught_each_resolved:
  "caught_each f rs s = (promises, console, s') \<Longrightarrow> \<exists>vs. Promise_all promises = Inr vs"
proof (induction rs arbitrary: s promises console s')
  case Nil
  then show ?case by simp
next
  case (Cons a rs)
  obtain r message where a: "a = (r, message)" by (cases a)
  obtain outcome s1 where f: "f r s = (outcome, s1)" by (cases "f r s")
  obtain ps c s2 where rest: "caught_each f rs s1 = (ps, c, s2)"
    by (cases "caught_each f rs s1")
  from Cons.IH [OF rest] obtain vs where vs: "Promise_all ps = Inr vs" by blast
  from Cons.prems a f rest vs show ?case
    by (cases outcome) auto
qed

lemma initializeIndexes_returns: "fst (initializeIndexes getDatabase createIndex s) = Inr ()"
proof (cases getDatabase)
  case (Inl e)
  then show ?thesis by (simp add: initializeIndexes_def)
next
  case (Inr db)
  let ?rs = "[(product_search_index, ''Text search index already exists''),
                   (category_index, ''Category index already exists''),
                   (created_at_index, ''Creation date index already exists''),
                   (category_created_at_index, ''Compound index already exists'')]"
  obtain ps c s' where run: "caught_each createIndex ?rs s = (ps, c, s')"
    by (cases "caught_each createIndex ?rs s")
  from caught_each_resolved [OF run] obtain vs where "Promise_all ps = Inr vs" by blast
  with Inr run show ?thesis
    unfolding initializeIndexes_def by simp
qed

lemma createIndexes_returns: "fst (createIndexes (Inr c) createIndex s) = Inr ()"
proof -
  let ?rs = "[product_search_index, category_index, created_at_index, category_created_at_index]"
  obtain r s' where run: "await_each createIndex ?rs s = (r, s')"
    by (cases "await_each createIndex ?rs s")
  then show ?thesis
    unfolding createIndexes_def by (cases r) simp_all
qed

text \<open>
  \<open>createIndexes\<close> awaits \<open>getCollection()\<close> before its \<open>try\<close> block, so a failure to
  reach the database is thrown to the caller.
\<close>

lemma createIndexes_no_collection:
  "fst (createIndexes (Inl e) createIndex s) = Inl e"
  by (simp add: createIndexes_def)

text \<open>
  Claim C9. Whatever the store answers to the single \<open>createIndex\<close> calls, both
  routines return without throwing, on a first run and on a run that starts from the
  state the first run left. For \<open>createIndexes\<close> this is the routine once it holds the
  collection; \<open>initializeIndexes\<close> also catches a failing \<open>getDatabase()\<close>.
\<close>

theorem index_setup_never_throws:
  "fst (initializeIndexes getDatabase createIndex s) = Inr ()
   \<and> fst (initializeIndexes getDatabase' createIndex
            (snd (snd (initializeIndexes getDatabase createIndex s)))) = Inr ()
   \<and> fst (createIndexes (Inr c) createIndex s) = Inr ()
   \<and> fst (createIndexes (Inr c') createIndex
            (snd (snd (createIndexes (Inr c) createIndex s)))) = Inr ()"
  by (simp add: initializeIndexes_returns createIndexes_returns)

text \<open>
  On the refusing store the first run creates the four indexes and the second run ends
  at the first refusal, which is caught.
\<close>

lemma refusing_second_run:
  "createIndexes (Inr ()) refusing_createIndex [] =
     (Inr (), [''Database indexes created successfully''],
      [''product_search_index'', ''category_index'', ''created_at_index'',
       ''category_created_at_index''])"
  "createIndexes (Inr ()) refusing_createIndex
      [''product_search_index'', ''category_index'', ''created_at_index'',
       ''category_created_at_index''] =
     (Inr (), [''Error creating indexes''],
      [''product_search_index'', ''category_index'', ''created_at_index'',
       ''category_created_at_index''])"
  by (simp_all add: createIndexes_def refusing_createIndex_def index_name_def)

theorem index_setup_never_throws_witness:
  "fst (createIndexes (Inr ()) refusing_createIndex
          (snd (snd (createIndexes (Inr ()) refusing_createIndex [])))) = Inr ()
   \<and> fst (snd (createIndexes (Inr ()) refusing_createIndex
          (snd (snd (createIndexes (Inr ()) refusing_createIndex []))))) = [''Error creating indexes'']
   \<and> fst (initializeIndexes (Inr ()) refusing_createIndex
          (snd (snd (initializeIndexes (Inr ()) refusing_createIndex [])))) = Inr ()"
proof -
  note t = index_setup_never_throws [of "Inr ()" refusing_createIndex "[]" "Inr ()" "()" "()"]
  have l: "fst (snd (createIndexes (Inr ()) refusing_createIndex
          (snd (snd (createIndexes (Inr ()) refusing_createIndex []))))) = [''Error creating indexes'']"
    by (simp add: refusing_second_run)
  from t l show ?thesis by blast
qed

section \<open>The products collection\<close>

text \<open>
  The collection of \<^verbatim>\<open>src/lib/services/productService.ts\<close> as the service sees it
  through the driver. A document is an object whose \<open>_id\<close> is an \<open>ObjectId\<close>. What the
  store's text search and its regular expressions match is the store's own matter, so
  both are fields of the collection: \<open>text_search s d\<close> says whether \<open>$text: {$search: s}\<close>
  selects the document, and \<open>regex p opts\<close> is the matcher of the pattern under the
  options, or \<open>None\<close> when the store rejects the pattern. \<open>indexExists\<close> is what the probe
  for an index of a name resolves to, or the error it rejects with. \<open>issued\<close> records the
  operations sent to the store, in order.
\<close>

datatype store_op =
  op_countDocuments | op_indexExists | op_aggregate | op_insertOne | op_findOne

record collection =
  documents :: "obj list"
  indexExists :: "string \<Rightarrow> store_error + bool"
  text_search :: "string \<Rightarrow> obj \<Rightarrow> bool"
  regex :: "string \<Rightarrow> string \<Rightarrow> (string \<Rightarrow> bool) option"
  issued :: "store_op list"

text \<open>An operation reaches the store.\<close>

definition issue :: "store_op \<Rightarrow> collection \<Rightarrow> collection" where
  "issue operation c = c\<lparr>issued := issued c @ [operation]\<rparr>"

subsection \<open>The match filter and the aggregation stages\<close>

text \<open>
  \<open>matchConditions\<close>: the equality on \<open>categoryId\<close>, the \<open>$text\<close> search, and the \<open>$or\<close> of
  \<open>{field: {$regex: pattern, $options: options}}\<close> conditions; each is absent or set.
\<close>

record matchConditions =
  match_categoryId :: "string option"
  match_text :: "string option"
  match_or :: "(string \<times> string \<times> string) list option"

datatype stage =
    Match matchConditions
  | Sort_createdAt_descending
  | Skip jsnum
  | Limit jsnum
  | AddFields_id
  | Project "string list"
  | Count string

text \<open>One \<open>$regex\<close> condition on a document: a field that is not a string does not match.\<close>

definition regex_condition :: "collection \<Rightarrow> obj \<Rightarrow> string \<times> string \<times> string \<Rightarrow> bool" where
  "regex_condition c d cond =
     (case cond of (field, pattern, opts) \<Rightarrow>
        (case regex c pattern opts of
           None \<Rightarrow> False
         | Some matcher \<Rightarrow> (case get_prop d field of Str s \<Rightarrow> matcher s | _ \<Rightarrow> False)))"

definition matches :: "collection \<Rightarrow> matchConditions \<Rightarrow> obj \<Rightarrow> bool" where
  "matches c mc d =
     ((case match_categoryId mc of None \<Rightarrow> True | Some cat \<Rightarrow> get_prop d ''categoryId'' = Str cat)
      \<and> (case match_text mc of None \<Rightarrow> True | Some s \<Rightarrow> text_search c s d)
      \<and> (case match_or mc of None \<Rightarrow> True | Some conds \<Rightarrow> list_ex (regex_condition c d) conds))"

text \<open>The store refuses a filter with a pattern it rejects.\<close>

definition patterns_accepted :: "collection \<Rightarrow> matchConditions \<Rightarrow> bool" where
  "patterns_accepted c mc =
     (case match_or mc of
        None \<Rightarrow> True
      | Some conds \<Rightarrow> list_all (\<lambda>(field, pattern, opts). regex c pattern opts \<noteq> None) conds)"

text \<open>
  The sort key of \<open>{createdAt: -1}\<close>: a date by its time; a document without one sorts as
  the smallest value.
\<close>

definition created_key :: "obj \<Rightarrow> int" where
  "created_key d = (case get_prop d ''createdAt'' of Date t \<Rightarrow> int t | _ \<Rightarrow> - 1)"

text \<open>\<open>$toString\<close> of an identifier.\<close>

definition id_toString :: "jsval \<Rightarrow> jsval" where
  "id_toString v = (case v of Oid h \<Rightarrow> Str h | Str s \<Rightarrow> Str s | _ \<Rightarrow> Null)"

text \<open>A number that the store takes as a count of documents: a whole number.\<close>

definition whole :: "rat \<Rightarrow> bool" where
  "whole k = (of_int \<lfloor>k\<rfloor> = k)"

text \<open>
  The stages on a list of documents. \<open>$skip\<close> wants a whole number that is not negative
  and \<open>$limit\<close> a positive one, both within 64 bits, and the store refuses the pipeline
  otherwise. \<open>$count\<close> gives no document for an empty input, and its count reaches the
  service as a number. The sort keeps documents of equal key in their order; the store
  promises no order among them.
\<close>

fun run_stage :: "collection \<Rightarrow> stage \<Rightarrow> obj list \<Rightarrow> store_error + obj list" where
  "run_stage c (Match mc) ds =
     (if patterns_accepted c mc then Inr (filter (matches c mc) ds)
      else Inl (MongoServerError 51091 ''Regular expression is invalid''))"
| "run_stage c Sort_createdAt_descending ds = Inr (sort_key (\<lambda>d. - created_key d) ds)"
| "run_stage c (Skip n) ds =
     (case n of
        JNum k \<Rightarrow> if whole k \<and> 0 \<le> k \<and> k < 2 ^ 63 then Inr (drop (nat \<lfloor>k\<rfloor>) ds)
                  else Inl (MongoServerError 5107200 ''invalid argument to $skip stage'')
      | _ \<Rightarrow> Inl (MongoServerError 5107200 ''invalid argument to $skip stage''))"
| "run_stage c (Limit n) ds =
     (case n of
        JNum k \<Rightarrow> if whole k \<and> 1 \<le> k \<and> k < 2 ^ 63 then Inr (take (nat \<lfloor>k\<rfloor>) ds)
                  else Inl (MongoServerError 5107201 ''invalid argument to $limit stage'')
      | _ \<Rightarrow> Inl (MongoServerError 5107201 ''invalid argument to $limit stage''))"
| "run_stage c AddFields_id ds =
     Inr (map (\<lambda>d. set_prop ''id'' (id_toString (get_prop d ''_id'')) d) ds)"
| "run_stage c (Project kept) ds = Inr (map (filter (\<lambda>(k, v). k \<in> set kept)) ds)"
| "run_stage c (Count name) ds =
     Inr (if ds = [] then [] else [[(name, Num (to_double (of_nat (length ds))))]])"

fun run_pipeline :: "collection \<Rightarrow> stage list \<Rightarrow> obj list \<Rightarrow> store_error + obj list" where
  "run_pipeline c [] ds = Inr ds"
| "run_pipeline c (st # sts) ds =
     (case run_stage c st ds of Inl e \<Rightarrow> Inl e | Inr ds' \<Rightarrow> run_pipeline c sts ds')"

subsection \<open>The operations of the driver\<close>

text \<open>\<open>collection.aggregate(pipeline).toArray()\<close>\<close>

definition aggregate :: "stage list \<Rightarrow> collection \<Rightarrow> (store_error + obj list) \<times> collection" where
  "aggregate pipeline c = (run_pipeline c pipeline (documents c), issue op_aggregate c)"

text \<open>\<open>collection.countDocuments({})\<close>\<close>

definition countDocuments :: "collection \<Rightarrow> nat \<times> collection" where
  "countDocuments c = (length (documents c), issue op_countDocuments c)"

text \<open>\<open>collection.indexExists(name)\<close>\<close>

definition probe_index :: "string \<Rightarrow> collection \<Rightarrow> (store_error + bool) \<times> collection" where
  "probe_index name c = (indexExists c name, issue op_indexExists c)"

text \<open>
  \<open>new ObjectId(id)\<close> on a string: 24 hexadecimal digits, of either case, name an
  identifier; any other string of the kinds that reach the service is refused with a
  BSON error. (Drivers before version 6 of the BSON library also take a string of 12
  bytes.)
\<close>

definition hex_digit :: "char \<Rightarrow> bool" where
  "hex_digit ch = (ch \<in> set ''0123456789abcdefABCDEF'')"

definition lower_hex :: "char \<Rightarrow> char" where
  "lower_hex ch =
     (if ch = CHR ''A'' then CHR ''a'' else if ch = CHR ''B'' then CHR ''b''
      else if ch = CHR ''C'' then CHR ''c'' else if ch = CHR ''D'' then CHR ''d''
      else if ch = CHR ''E'' then CHR ''e'' else if ch = CHR ''F'' then CHR ''f'' else ch)"

definition ObjectId :: "string \<Rightarrow> store_error + string" where
  "ObjectId s =
     (if length s = 24 \<and> list_all hex_digit s then Inr (map lower_hex s)
      else Inl (BSONError
        ''input must be a 24 character hex string, 12 byte Uint8Array, or an integer''))"

text \<open>\<open>collection.findOne({_id: oid})\<close>\<close>

definition findOne :: "string \<Rightarrow> collection \<Rightarrow> obj option \<times> collection" where
  "findOne oid c = (find (\<lambda>d. get_prop d ''_id'' = Oid oid) (documents c), issue op_findOne c)"

text \<open>
  \<open>collection.insertOne(doc)\<close> for a document without \<open>_id\<close>: the driver gives it the
  identifier it generates, here the first argument, and the store refuses an identifier
  it already holds. The parameter of \<open>createProduct\<close> is declared without \<open>_id\<close>, so its
  documents always take the generated one.
\<close>

definition insertOne :: "string \<Rightarrow> obj \<Rightarrow> collection \<Rightarrow> (store_error + string) \<times> collection" where
  "insertOne generated doc c =
     (if list_ex (\<lambda>d. get_prop d ''_id'' = Oid generated) (documents c)
      then (Inl (MongoServerError 11000 ''E11000 duplicate key error''), issue op_insertOne c)
      else (Inr generated,
            issue op_insertOne (c\<lparr>documents := documents c @ [set_prop ''_id'' (Oid generated) doc]\<rparr>)))"

section \<open>The product service\<close>

text \<open>
  \<open>ProductService\<close> in \<^verbatim>\<open>src/lib/services/productService.ts\<close>. The names that
  \<open>getProductById\<close>, \<open>getAllProducts\<close> and \<open>updateProduct\<close> copy from a stored document, after
  \<open>id\<close>, and that the projection of the paginated query keeps.
\<close>

definition product_fields :: "string list" where
  "product_fields =
     [''name'', ''price'', ''image'', ''categoryId'', ''subcategoryIds'', ''description'',
      ''inStock'', ''createdAt'', ''updatedAt'', ''hasVariations'', ''variations'',
      ''eligibleForCoupons'', ''type'', ''baseColor'', ''angles'', ''colors'', ''purchaseLimit'',
      ''frontImage'', ''backImage'', ''leftImage'', ''rightImage'', ''materialImage'',
      ''frontAltText'', ''backAltText'', ''leftAltText'', ''rightAltText'', ''materialAltText'']"

text \<open>The names that \<open>createProduct\<close> writes again after the spread of its argument.\<close>

definition created_fields :: "string list" where
  "created_fields =
     [''hasVariations'', ''variations'', ''eligibleForCoupons'', ''type'', ''baseColor'',
      ''angles'', ''colors'', ''purchaseLimit'',
      ''frontImage'', ''backImage'', ''leftImage'', ''rightImage'', ''materialImage'',
      ''frontAltText'', ''backAltText'', ''leftAltText'', ''rightAltText'', ''materialAltText'']"

text \<open>The entries \<open>k: source.k\<close> of an object literal, for the names of a list.\<close>

definition copy_props :: "string list \<Rightarrow> obj \<Rightarrow> obj \<Rightarrow> obj" where
  "copy_props names source target = fold (\<lambda>k. set_prop k (get_prop source k)) names target"

text \<open>\<open>product._id!.toString()\<close>\<close>

definition oid_string :: "jsval \<Rightarrow> string" where
  "oid_string v = (case v of Oid h \<Rightarrow> h | _ \<Rightarrow> [])"

text \<open>
  \<open>createProduct\<close>. The first two arguments are the two readings of the clock, the third
  is the identifier that the driver generates.
\<close>

definition createProduct ::
  "nat \<Rightarrow> nat \<Rightarrow> string \<Rightarrow> obj \<Rightarrow> collection \<Rightarrow> (store_error + obj) \<times> collection" where
  "createProduct now now' generated productData c =
     (let newProduct =
            set_prop ''updatedAt'' (Date now')
              (set_prop ''createdAt'' (Date now) (spread productData []))
      in case insertOne generated newProduct c of
           (Inl err, c') \<Rightarrow> (Inl err, c')
         | (Inr insertedId, c') \<Rightarrow>
             (Inr (copy_props created_fields productData
                     (spread productData [(''id'', Str insertedId)])), c'))"

text \<open>
  \<open>getProductById\<close>. The identifier is built before \<open>findOne\<close> is called, and nothing
  catches what the constructor throws.
\<close>

definition getProductById :: "string \<Rightarrow> collection \<Rightarrow> (store_error + obj option) \<times> collection" where
  "getProductById ident c =
     (case ObjectId ident of
        Inl err \<Rightarrow> (Inl err, c)
      | Inr oid \<Rightarrow>
          (case findOne oid c of
             (None, c') \<Rightarrow> (Inr None, c')
           | (Some product, c') \<Rightarrow>
               (Inr (Some (copy_props product_fields product
                             [(''id'', Str (oid_string (get_prop product ''_id'')))])), c')))"

subsection \<open>The paginated query\<close>


text \<open>The \<open>$or\<close> of the two case-insensitive \<open>$regex\<close> conditions.\<close>

definition regex_fallback :: "string \<Rightarrow> (string \<times> string \<times> string) list" where
  "regex_fallback s = [(''name'', s, ''i''), (''description'', s, ''i'')]"

text \<open>\<open>categoryId && categoryId !== 'all'\<close>\<close>

definition category_filter :: "string option \<Rightarrow> string option" where
  "category_filter cat = (if truthy_str cat \<and> cat \<noteq> Some ''all'' then cat else None)"

text \<open>
  The construction of \<open>matchConditions\<close>. The probe is made only for an active search;
  its rejection is caught, and gives the same conditions as an absent index.
\<close>

definition build_matchConditions ::
  "PaginationParams \<Rightarrow> collection \<Rightarrow> matchConditions \<times> collection" where
  "build_matchConditions params c =
     (case search params of
        None \<Rightarrow>
          (\<lparr>match_categoryId = category_filter (categoryId params), match_text = None,
            match_or = None\<rparr>, c)
      | Some s \<Rightarrow>
          if s \<noteq> [] \<and> trim s \<noteq> [] then
            (case probe_index ''product_search_index'' c of
               (Inr hasTextIndex, c') \<Rightarrow>
                 (if hasTextIndex
                  then \<lparr>match_categoryId = category_filter (categoryId params),
                        match_text = Some s, match_or = None\<rparr>
                  else \<lparr>match_categoryId = category_filter (categoryId params),
                        match_text = None, match_or = Some (regex_fallback s)\<rparr>, c')
             | (Inl err, c') \<Rightarrow>
                 (\<lparr>match_categoryId = category_filter (categoryId params),
                   match_text = None, match_or = Some (regex_fallback s)\<rparr>, c'))
          else
            (\<lparr>match_categoryId = category_filter (categoryId params), match_text = None,
              match_or = None\<rparr>, c))"

definition count_pipeline :: "matchConditions \<Rightarrow> stage list" where
  "count_pipeline mc = [Match mc, Count ''total'']"

definition data_pipeline :: "matchConditions \<Rightarrow> jsnum \<Rightarrow> jsnum \<Rightarrow> stage list" where
  "data_pipeline mc skip per_page =
     [Match mc, Sort_createdAt_descending, Skip skip, Limit per_page, AddFields_id,
      Project (''id'' # product_fields)]"

text \<open>
  \<open>countResult?.total || 0\<close> for the first document of the count pipeline's result, whose
  \<open>total\<close> is a number when it is there.
\<close>

definition total_of :: "obj list \<Rightarrow> jsnum" where
  "total_of countResult =
     (case countResult of
        [] \<Rightarrow> JNum 0
      | d # ds \<Rightarrow>
          (case get_prop d ''total'' of
             Num n \<Rightarrow> if n = JNum 0 \<or> n = JNaN then JNum 0 else n
           | _ \<Rightarrow> JNum 0))"

text \<open>\<open>const skip = (page - 1) * limit\<close>\<close>

definition skip_of :: "'a PageLimit_scheme \<Rightarrow> jsnum" where
  "skip_of params = js_mul (js_sub (page params) (JNum 1)) (limit params)"

text \<open>
  \<open>getProductsPaginated\<close>. The count of all documents at its start is only logged. An
  error of either aggregation is logged and thrown again.
\<close>

definition getProductsPaginated ::
  "PaginationParams \<Rightarrow> collection \<Rightarrow> (store_error + obj PaginatedResult) \<times> collection" where
  "getProductsPaginated params c =
     (case countDocuments c of
        (totalDocuments, c1) \<Rightarrow>
          (let skip = skip_of params
           in case build_matchConditions params c1 of
                (mc, c2) \<Rightarrow>
                  (case aggregate (count_pipeline mc) c2 of
                     (Inl err, c3) \<Rightarrow> (Inl err, c3)
                   | (Inr countResult, c3) \<Rightarrow>
                       (case aggregate (data_pipeline mc skip (limit params)) c3 of
                          (Inl err, c4) \<Rightarrow> (Inl err, c4)
                        | (Inr products, c4) \<Rightarrow>
                            (let total = total_of countResult;
                                 pages = js_ceil (js_div total (limit params))
                             in (Inr \<lparr>data = products,
                                      pagination_meta =
                                        \<lparr>page = page params, limit = limit params,
                                         total_docs = total, totalPages = pages,
                                         hasNext = js_lt (page params) pages,
                                         hasPrev = js_gt (page params) (JNum 1)\<rparr>\<rparr>, c4))))))"

section \<open>The route \<open>GET /api/products\<close>\<close>

text \<open>
  \<^verbatim>\<open>src/app/api/products/route.ts\<close>, from the parsed parameters on: \<open>page\<close> and \<open>limit\<close> are
  what \<open>parseInt\<close> gave for the parameter or for its default, \<open>search\<close> and \<open>categoryId\<close>
  are the parameter or the empty string. A response is the JSON of a result, or a status
  with an \<open>error\<close> text and, for a caught error, its message as \<open>details\<close>.
\<close>

datatype response = Result "obj PaginatedResult" | Failure nat string "string option"

definition error_message :: "store_error \<Rightarrow> string" where
  "error_message e = (case e of MongoServerError code m \<Rightarrow> m | BSONError m \<Rightarrow> m)"

definition GET :: "jsnum \<Rightarrow> jsnum \<Rightarrow> string \<Rightarrow> string \<Rightarrow> collection \<Rightarrow> response \<times> collection" where
  "GET pageParam limitParam searchParam categoryParam c =
     (if js_lt pageParam (JNum 1) \<or> js_lt limitParam (JNum 1) \<or> js_gt limitParam (JNum 1000)
      then (Failure 500 ''Invalid pagination parameters'' None, c)
      else
        (case getProductsPaginated
                \<lparr>page = pageParam, limit = limitParam, search = Some searchParam,
                 categoryId = Some categoryParam\<rparr> c of
           (Inr result, c') \<Rightarrow> (Result result, c')
         | (Inl err, c') \<Rightarrow>
             (Failure 500 ''Failed to fetch products'' (Some (error_message err)), c')))"

section \<open>Properties of the service and the route\<close>

text \<open>
  A collection without documents and without indexes, whose store matches nothing and
  rejects every pattern.
\<close>

definition empty_collection :: collection where
  "empty_collection =
     \<lparr>documents = [], indexExists = (\<lambda>name. Inr False), text_search = (\<lambda>s d. False),
      regex = (\<lambda>pattern opts. None), issued = []\<rparr>"

lemma issue_fields [simp]:
  "documents (issue operation c) = documents c"
  "indexExists (issue operation c) = indexExists c"
  "text_search (issue operation c) = text_search c"
  "regex (issue operation c) = regex c"
  "issued (issue operation c) = issued c @ [operation]"
  by (simp_all add: issue_def)

subsection \<open>Looking a product up\<close>

lemma getProductById_invalid:
  "ObjectId ident = Inl e \<Longrightarrow> getProductById ident c = (Inl e, c)"
  by (simp add: getProductById_def)

lemma getProductById_absent:
  assumes "ObjectId ident = Inr oid"
    and "\<not> list_ex (\<lambda>d. get_prop d ''_id'' = Oid oid) (documents c)"
  shows "getProductById ident c = (Inr None, issue op_findOne c)"
proof -
  from assms(2) have "find (\<lambda>d. get_prop d ''_id'' = Oid oid) (documents c) = None"
    by (simp add: find_None_iff list_ex_iff)
  with assms(1) show ?thesis
    by (simp add: getProductById_def findOne_def)
qed

text \<open>
  Claim C6, as the code has it. An identifier that \<open>ObjectId\<close> refuses makes
  \<open>getProductById\<close> throw the constructor's error, before any query; an identifier that
  it accepts and that no stored document carries gives \<open>null\<close>.
\<close>

theorem getProductById_not_found:
  "(ObjectId ident = Inl e \<longrightarrow> getProductById ident c = (Inl e, c))
   \<and> (ObjectId ident = Inr oid
        \<and> \<not> list_ex (\<lambda>d. get_prop d ''_id'' = Oid oid) (documents c) \<longrightarrow>
        fst (getProductById ident c) = Inr None)"
  using getProductById_invalid getProductById_absent by simp

lemma ObjectId_well_formed:
  "ObjectId ''65A1b2c3d4e5f60718293a4b'' = Inr ''65a1b2c3d4e5f60718293a4b''"
  by (simp add: ObjectId_def hex_digit_def lower_hex_def)

lemma ObjectId_malformed:
  "ObjectId ''abc'' = Inl (BSONError
        ''input must be a 24 character hex string, 12 byte Uint8Array, or an integer'')"
  by (simp add: ObjectId_def)

theorem getProductById_not_found_witness:
  "getProductById ''abc'' empty_collection =
     (Inl (BSONError
        ''input must be a 24 character hex string, 12 byte Uint8Array, or an integer''),
      empty_collection)
   \<and> fst (getProductById ''65A1b2c3d4e5f60718293a4b'' empty_collection) = Inr None"
proof -
  have d: "\<not> list_ex (\<lambda>d. get_prop d ''_id'' = Oid ''65a1b2c3d4e5f60718293a4b'')
             (documents empty_collection)"
    by (simp add: empty_collection_def)
  from getProductById_not_found [of "''abc''" _ empty_collection] ObjectId_malformed
  have a: "getProductById ''abc'' empty_collection =
     (Inl (BSONError
        ''input must be a 24 character hex string, 12 byte Uint8Array, or an integer''),
      empty_collection)"
    by blast
  from getProductById_not_found [of "''65A1b2c3d4e5f60718293a4b''" _ empty_collection
      "''65a1b2c3d4e5f60718293a4b''"] ObjectId_well_formed d
  have b: "fst (getProductById ''65A1b2c3d4e5f60718293a4b'' empty_collection) = Inr None"
    by blast
  from a b show ?thesis by blast
qed

text \<open>
  The claim as the specification states it fails: for the identifier \<open>abc\<close> the result is
  not \<open>null\<close>, it is the thrown error.
\<close>

theorem getProductById_malformed_id_throws:
  "fst (getProductById ''abc'' empty_collection) \<noteq> Inr None"
  by (simp add: getProductById_def ObjectId_def)

subsection \<open>Validation of the pagination parameters\<close>

text \<open>
  Claim C2. When the parsed \<open>page\<close> is below 1, or the parsed \<open>limit\<close> is below 1 or above
  1000, the route answers with the error response and leaves the collection as it was:
  no operation has been sent to the store.
\<close>

theorem invalid_pagination_rejected:
  assumes "js_lt pageParam (JNum 1) \<or> js_lt limitParam (JNum 1) \<or> js_gt limitParam (JNum 1000)"
  shows "GET pageParam limitParam searchParam categoryParam c =
           (Failure 500 ''Invalid pagination parameters'' None, c)
       \<and> issued (snd (GET pageParam limitParam searchParam categoryParam c)) = issued c"
  using assms by (simp add: GET_def)

text \<open>
  Parameters that pass the validation do reach the store: the first operation of the
  service is sent. A \<open>page\<close> that \<open>parseInt\<close> could not read is \<open>NaN\<close>, which no comparison
  rejects.
\<close>

lemma getProductsPaginated_issues:
  "\<exists>ops. issued (snd (getProductsPaginated params c)) = issued c @ op_countDocuments # ops"
  by (auto simp: getProductsPaginated_def countDocuments_def build_matchConditions_def
        probe_index_def aggregate_def Let_def split: prod.splits sum.splits option.splits)

lemma valid_pagination_queries:
  assumes "\<not> (js_lt pageParam (JNum 1) \<or> js_lt limitParam (JNum 1) \<or> js_gt limitParam (JNum 1000))"
  shows "\<exists>ops. issued (snd (GET pageParam limitParam searchParam categoryParam c))
           = issued c @ op_countDocuments # ops"
proof -
  let ?params = "\<lparr>page = pageParam, limit = limitParam, search = Some searchParam,
                 categoryId = Some categoryParam\<rparr>"
  from getProductsPaginated_issues [of ?params c] obtain ops
    where "issued (snd (getProductsPaginated ?params c)) = issued c @ op_countDocuments # ops"
    by blast
  with assms show ?thesis
    by (auto simp: GET_def split: prod.splits sum.splits)
qed

theorem invalid_pagination_rejected_witness:
  "GET (JNum 0) (JNum 10) [] [] empty_collection =
     (Failure 500 ''Invalid pagination parameters'' None, empty_collection)
   \<and> GET (JNum 1) (JNum 1001) [] [] empty_collection =
     (Failure 500 ''Invalid pagination parameters'' None, empty_collection)
   \<and> GET (JInfinity False) (JNum 10) [] [] empty_collection =
     (Failure 500 ''Invalid pagination parameters'' None, empty_collection)"
proof -
  have a: "js_lt (JNum 0) (JNum 1) \<or> js_lt (JNum 10) (JNum 1) \<or> js_gt (JNum 10) (JNum 1000)"
    and b: "js_lt (JNum 1) (JNum 1) \<or> js_lt (JNum 1001) (JNum 1) \<or> js_gt (JNum 1001) (JNum 1000)"
    and c: "js_lt (JInfinity False) (JNum 1) \<or> js_lt (JNum 10) (JNum 1)
              \<or> js_gt (JNum 10) (JNum 1000)"
    by (simp_all add: js_gt_def)
  from invalid_pagination_rejected [OF a] invalid_pagination_rejected [OF b]
    invalid_pagination_rejected [OF c]
  show ?thesis by blast
qed

lemma NaN_page_not_rejected:
  "\<exists>ops. issued (snd (GET JNaN (JNum 10) [] [] c)) = issued c @ op_countDocuments # ops"
  by (rule valid_pagination_queries) (simp add: js_gt_def)

subsection \<open>Rounding to a double\<close>

text \<open>
  The search for the exponent finds it: between the bounds it is given, \<open>binade\<close> returns
  the exponent of the power of two at or below its argument.
\<close>

lemma binade_spec:
  "x < 2 powi (e + 1) \<Longrightarrow> 2 powi (e - int n) \<le> x \<Longrightarrow>
   2 powi (binade n e x) \<le> x \<and> x < 2 powi (binade n e x + 1)
   \<and> e - int n \<le> binade n e x \<and> binade n e x \<le> e"
proof (induction n arbitrary: e)
  case 0
  then show ?case by simp
next
  case (Suc n)
  show ?case
  proof (cases "2 powi e \<le> x")
    case True
    with Suc.prems show ?thesis by simp
  next
    case False
    then have "x < 2 powi ((e - 1) + 1)" by simp
    moreover from Suc.prems(2) have "2 powi ((e - 1) - int n) \<le> x"
      by (simp add: algebra_simps)
    ultimately have "2 powi (binade n (e - 1) x) \<le> x \<and> x < 2 powi (binade n (e - 1) x + 1)
        \<and> (e - 1) - int n \<le> binade n (e - 1) x \<and> binade n (e - 1) x \<le> e - 1"
      by (rule Suc.IH)
    with False show ?thesis by simp
  qed
qed

lemma round_half_even_of_int [simp]: "round_half_even (of_int k) = k"
  by (simp add: round_half_even_def)

lemma round_half_even_error: "\<bar>of_int (round_half_even r) - r\<bar> \<le> 1 / 2"
  unfolding round_half_even_def by (auto simp: abs_if) linarith+

lemma round_half_even_nonneg: "0 \<le> r \<Longrightarrow> 0 \<le> round_half_even r"
  unfolding round_half_even_def by (auto simp: add_nonneg_nonneg)

lemma binade_unique:
  fixes a b :: int and x :: rat
  assumes "2 powi a \<le> x" "x < 2 powi (a + 1)" "2 powi b \<le> x" "x < 2 powi (b + 1)"
  shows "a = b"
proof -
  have "a < b + 1"
  proof (rule ccontr)
    assume "\<not> a < b + 1"
    then have "(2::rat) powi (b + 1) \<le> 2 powi a"
      by (intro power_int_increasing) simp_all
    with assms(1,4) show False by linarith
  qed
  moreover have "b < a + 1"
  proof (rule ccontr)
    assume "\<not> b < a + 1"
    then have "(2::rat) powi (a + 1) \<le> 2 powi b"
      by (intro power_int_increasing) simp_all
    with assms(2,3) show False by linarith
  qed
  ultimately show ?thesis by simp
qed

lemma binade_normal:
  fixes r :: int and y :: rat
  assumes "2 powi r \<le> y" "y < 2 powi (r + 1)" "- 1074 \<le> r" "r \<le> 1023"
  shows "binade 2097 1023 y = r"
proof -
  have up: "y < 2 powi (1023 + 1)"
  proof -
    have "(2::rat) powi (r + 1) \<le> 2 powi (1023 + 1)"
      using assms(4) by (intro power_int_increasing) simp_all
    with assms(2) show ?thesis by linarith
  qed
  have low: "2 powi (1023 - int 2097) \<le> y"
  proof -
    have "(2::rat) powi (1023 - int 2097) \<le> 2 powi r"
      using assms(3) by (intro power_int_increasing) simp_all
    with assms(1) show ?thesis by linarith
  qed
  from binade_spec [OF up low]
  have "2 powi (binade 2097 1023 y) \<le> y" "y < 2 powi (binade 2097 1023 y + 1)"
    by simp_all
  then show ?thesis
    using assms(1,2) by (rule binade_unique)
qed

lemma to_double_normal:
  fixes r :: int and x :: rat
  assumes "2 powi r \<le> \<bar>x\<bar>" "\<bar>x\<bar> < 2 powi (r + 1)" "- 1022 \<le> r" "r \<le> 1023"
  shows "to_double x =
           (if (2::rat) powi 1024
                 \<le> of_int (round_half_even (\<bar>x\<bar> / 2 powi (r - 52))) * 2 powi (r - 52)
            then JInfinity (0 < x)
            else JNum (sgn x * of_int (round_half_even (\<bar>x\<bar> / 2 powi (r - 52)))
                        * 2 powi (r - 52)))"
proof -
  have b: "binade 2097 1023 \<bar>x\<bar> = r"
    using assms by (intro binade_normal) simp_all
  have m: "max (r - 52) (- 1074) = r - 52"
    using assms(3) by simp
  show ?thesis
    unfolding to_double_def b Let_def m by (rule refl)
qed

lemma to_double_zero [simp]: "to_double 0 = JNum 0"
proof -
  have "round_half_even 0 = 0"
    using round_half_even_of_int [of 0] by simp
  then show ?thesis
    by (simp add: to_double_def Let_def)
qed

lemma two_powi_1024_large: "(of_int k :: rat) \<le> 2 ^ 53 \<Longrightarrow> \<not> 2 powi 1024 \<le> (of_int k :: rat)"
proof -
  assume a: "(of_int k :: rat) \<le> 2 ^ 53"
  have "(2::rat) powi 53 < 2 powi 1024"
    by (intro power_int_strict_increasing) simp_all
  then have "(2::rat) ^ 53 < 2 powi 1024" by simp
  with a show ?thesis by linarith
qed

text \<open>A whole number of magnitude at most \<open>2^53\<close> is a double: rounding leaves it.\<close>

lemma to_double_exact:
  fixes n :: int
  assumes "\<bar>n\<bar> \<le> 2 ^ 53"
  shows "to_double (of_int n) = JNum (of_int n)"
proof (cases "n = 0")
  case True
  then show ?thesis by simp
next
  case False
  define a where "a = nat \<bar>n\<bar>"
  have a1: "1 \<le> a" and an: "int a = \<bar>n\<bar>"
    using False by (simp_all add: a_def)
  from ex_power_ivl1 [of 2 a] a1 obtain k where k: "2 ^ k \<le> a" "a < 2 ^ (k + 1)"
    by auto
  have a53: "a \<le> 2 ^ 53"
    using assms an by (metis of_nat_le_iff of_nat_numeral of_nat_power)
  have k53: "k \<le> 53"
  proof (rule ccontr)
    assume "\<not> k \<le> 53"
    then have "(2::nat) ^ 54 \<le> 2 ^ k" by (intro power_increasing) simp_all
    with k(1) a53 show False by simp
  qed
  have absx: "\<bar>of_int n :: rat\<bar> = of_nat a"
    using an by (metis of_int_abs of_int_of_nat_eq)
  have lo: "2 powi (int k) \<le> \<bar>of_int n :: rat\<bar>"
    using k(1) unfolding absx by (metis of_nat_le_iff of_nat_numeral of_nat_power power_int_of_nat)
  have hi: "\<bar>of_int n :: rat\<bar> < 2 powi (int k + 1)"
  proof -
    have "(of_nat a :: rat) < of_nat (2 ^ (k + 1))"
      using k(2) by (simp only: of_nat_less_iff)
    also have "(of_nat (2 ^ (k + 1)) :: rat) = 2 powi (int k + 1)"
      by (metis of_nat_Suc of_nat_numeral of_nat_power power_int_of_nat Suc_eq_plus1 of_nat_add of_nat_1)
    finally show ?thesis unfolding absx .
  qed
  have ex: "\<exists>j :: int. \<bar>of_int n :: rat\<bar> / 2 powi (int k - 52) = of_int j
              \<and> of_int j * 2 powi (int k - 52) = \<bar>of_int n :: rat\<bar>"
  proof (cases "k \<le> 52")
    case True
    have "(2::rat) powi (int k - 52) = 1 / 2 ^ (52 - k)"
      using True by (simp add: power_int_def inverse_eq_divide power_one_over nat_diff_distrib')
    then have "\<bar>of_int n :: rat\<bar> / 2 powi (int k - 52) = of_int (\<bar>n\<bar> * 2 ^ (52 - k))"
      by simp
    then show ?thesis by (metis nonzero_eq_divide_eq power_int_eq_0_iff zero_neq_numeral)
  next
    case False
    with k53 have k: "k = 53" by simp
    with \<open>2 ^ k \<le> a\<close> a53 have "a = 2 ^ 53" by simp
    then have "\<bar>of_int n :: rat\<bar> = 2 ^ 53" unfolding absx by simp
    then have "\<bar>of_int n :: rat\<bar> / 2 powi (int k - 52) = of_int (2 ^ 52)"
      by (simp add: k)
    then show ?thesis by (metis nonzero_eq_divide_eq power_int_eq_0_iff zero_neq_numeral)
  qed
  then obtain j :: int where j: "\<bar>of_int n :: rat\<bar> / 2 powi (int k - 52) = of_int j"
    "of_int j * 2 powi (int k - 52) = \<bar>of_int n :: rat\<bar>"
    by blast
  have small: "\<not> 2 powi 1024 \<le> \<bar>of_int n :: rat\<bar>"
  proof -
    have "(of_int \<bar>n\<bar> :: rat) \<le> 2 ^ 53"
      using assms by (metis of_int_le_iff of_int_numeral of_int_power)
    then show ?thesis using two_powi_1024_large [of "\<bar>n\<bar>"] by simp
  qed
  have "to_double (of_int n) = JNum (sgn (of_int n) * \<bar>of_int n :: rat\<bar>)"
    using to_double_normal [OF lo hi] k53 small
    by (simp add: j mult.assoc)
  then show ?thesis by (simp add: sgn_mult_abs)
qed

text \<open>
  The quotient of a count of at most \<open>2^53\<close> by a whole number from 1 to 1000 is rounded
  by less than its distance to the next whole numbers, so its ceiling is the ceiling of
  the exact quotient.
\<close>

lemma to_double_quotient:
  fixes n :: nat and l :: int
  assumes n: "n \<le> 2 ^ 53" and l: "1 \<le> l" "l \<le> 1000"
  shows "\<exists>y. to_double (of_nat n / of_int l) = JNum y
             \<and> \<lceil>y\<rceil> = \<lceil>of_nat n / of_int l :: rat\<rceil>"
proof (cases "l dvd int n")
  case True
  then obtain k where k: "int n = l * k" by (auto simp: dvd_def)
  have lpos: "(of_int l :: rat) \<noteq> 0" using l by simp
  have "(of_nat n :: rat) = of_int (int n)" by simp
  also have "\<dots> = of_int l * of_int k" unfolding k by simp
  finally have x: "(of_nat n / of_int l :: rat) = of_int k"
    using lpos by simp
  have k0: "0 \<le> k"
    using k l by (metis of_nat_0_le_iff zero_le_mult_iff not_one_le_zero order_trans zero_le_one linorder_not_le mult_less_0_iff)
  have "k \<le> int n"
    using k l k0 by (metis mult_le_cancel_right1 mult.commute mult_left_mono mult_1 order_trans)
  moreover have "int n \<le> 2 ^ 53"
    using n by (metis of_nat_le_iff of_nat_numeral of_nat_power)
  ultimately have "\<bar>k\<bar> \<le> 2 ^ 53" using k0 by simp
  then have "to_double (of_int k) = JNum (of_int k)" by (rule to_double_exact)
  then show ?thesis unfolding x by simp
next
  case False
  define x :: rat where "x = of_nat n / of_int l"
  define k where "k = \<lceil>x\<rceil>"
  have lpos: "(0::rat) < of_int l" using l by simp
  have n0: "n \<noteq> 0"
  proof
    assume "n = 0"
    then have "l dvd int n" by simp
    with False show False by simp
  qed
  have xl: "x * of_int l = of_nat n" using lpos by (simp add: x_def)
  have xpos: "0 < x" using n0 lpos by (simp add: x_def)
  have notint: "x \<noteq> of_int j" for j
  proof
    assume "x = of_int j"
    then have "(of_int (int n) :: rat) = of_int (j * l)" using xl by simp
    then have "int n = j * l" by (simp only: of_int_eq_iff)
    with False show False by simp
  qed
  have n53: "(of_nat n :: rat) \<le> 2 ^ 53"
    using n by (metis of_nat_le_iff of_nat_numeral of_nat_power)
  have xle: "x \<le> 2 ^ 53"
  proof -
    have "x \<le> x * of_int l" using xpos l by (simp add: mult_le_cancel_left1)
    with xl n53 show ?thesis by simp
  qed
  have xge: "1 / 1000 \<le> x"
  proof -
    have "1 \<le> (of_nat n :: rat)" using n0 by (simp add: Suc_leI)
    moreover have "(of_int l :: rat) \<le> 1000" using l by simp
    ultimately show ?thesis unfolding x_def using lpos
      by (simp add: frac_le)
  qed
  have up: "x < 2 powi (1023 + 1)"
  proof -
    have "(2::rat) powi 53 < 2 powi (1023 + 1)"
      by (intro power_int_strict_increasing) simp_all
    with xle show ?thesis by simp
  qed
  have low: "2 powi (1023 - int 2097) \<le> x"
  proof -
    have "(2::rat) powi (1023 - int 2097) \<le> 2 powi (- 10)"
      by (intro power_int_increasing) simp_all
    also have "\<dots> \<le> 1 / 1000" by (simp add: power_int_minus_divide)
    finally show ?thesis using xge by linarith
  qed
  define r where "r = binade 2097 1023 x"
  from binade_spec [OF up low]
  have r: "2 powi r \<le> x" "x < 2 powi (r + 1)"
    by (simp_all add: r_def)
  have rlow: "- 10 \<le> r"
  proof (rule ccontr)
    assume "\<not> - 10 \<le> r"
    then have "(2::rat) powi (r + 1) \<le> 2 powi (- 10)"
      by (intro power_int_increasing) simp_all
    also have "\<dots> \<le> 1 / 1000" by (simp add: power_int_minus_divide)
    finally show False using r(2) xge by linarith
  qed
  have rhigh: "r \<le> 53"
  proof (rule ccontr)
    assume "\<not> r \<le> 53"
    then have "(2::rat) powi 54 \<le> 2 powi r"
      by (intro power_int_increasing) simp_all
    with r(1) xle show False by simp
  qed
  define u :: rat where "u = 2 powi (r - 52)"
  define m where "m = round_half_even (x / u)"
  define y where "y = of_int m * u"
  have upos: "0 < u" by (simp add: u_def)
  have u2: "2 powi r = u * 2 ^ 52"
    by (simp add: u_def power_int_diff)
  have err: "\<bar>y - x\<bar> \<le> u / 2"
  proof -
    have "\<bar>of_int m - x / u\<bar> \<le> 1 / 2"
      unfolding m_def by (rule round_half_even_error)
    then have "\<bar>of_int m - x / u\<bar> * u \<le> 1 / 2 * u"
      using upos by (intro mult_right_mono) simp_all
    moreover have "\<bar>of_int m - x / u\<bar> * u = \<bar>y - x\<bar>"
    proof -
      have "\<bar>of_int m - x / u\<bar> * u = \<bar>(of_int m - x / u) * u\<bar>"
        using upos by (simp add: abs_mult)
      also have "(of_int m - x / u) * u = y - x"
        using upos by (simp add: y_def left_diff_distrib)
      finally show ?thesis .
    qed
    ultimately show ?thesis by simp
  qed
  have strict: "of_int l * u < 2"
  proof (cases "0 \<le> r")
    case True
    have le: "of_int l * 2 powi r \<le> (2::rat) ^ 53"
    proof -
      have "of_int l * 2 powi r \<le> of_int l * x"
        using r(1) lpos by (intro mult_left_mono) simp_all
      with xl n53 show ?thesis by (simp add: mult.commute)
    qed
    have "of_int l * 2 powi r \<noteq> (2::rat) ^ 53"
    proof
      assume eq: "of_int l * 2 powi r = (2::rat) ^ 53"
      have "of_int l * x \<le> of_int l * 2 powi r"
        using xl n53 eq by (simp add: mult.commute)
      then have "x \<le> 2 powi r" using lpos by simp
      with r(1) have "x = 2 powi r" by simp
      also have "\<dots> = of_int (2 ^ nat r)" using True by (simp add: power_int_def)
      finally show False using notint by blast
    qed
    with le have "of_int l * 2 powi r < (2::rat) ^ 53" by simp
    then have "of_int l * u * 2 ^ 52 < 2 * (2::rat) ^ 52"
      by (simp add: u2 mult.assoc)
    then show ?thesis by (simp add: mult.commute)
  next
    case False
    then have "(2::rat) powi (r - 52) \<le> 2 powi (- 53)"
      by (intro power_int_increasing) simp_all
    then have "u \<le> 1 / 2 ^ 53" by (simp add: u_def power_int_minus_divide)
    then have "of_int l * u \<le> of_int l * (1 / 2 ^ 53)"
      using lpos by (intro mult_left_mono) simp_all
    moreover have "(of_int l :: rat) * (1 / 2 ^ 53) \<le> 1000 * (1 / 2 ^ 53)"
      using l by (intro mult_right_mono) simp_all
    ultimately show ?thesis by simp
  qed
  then have half: "u / 2 < 1 / of_int l"
    using lpos by (simp add: field_simps)
  have kx: "of_int k - 1 < x" "x < of_int k"
  proof -
    show "of_int k - 1 < x" unfolding k_def by linarith
    have "x \<le> of_int k" unfolding k_def by linarith
    with notint [of k] show "x < of_int k" by simp
  qed
  have below: "1 / of_int l \<le> x - (of_int k - 1)"
  proof -
    have "(x - (of_int k - 1)) * of_int l = of_int (int n - (k - 1) * l)"
      using xl by (simp add: algebra_simps)
    moreover have "0 < (x - (of_int k - 1)) * of_int l"
      using kx(1) lpos by simp
    ultimately have "0 < int n - (k - 1) * l" by (simp only: of_int_0_less_iff)
    then have "1 \<le> int n - (k - 1) * l" by simp
    then have "(1::rat) \<le> of_int (int n - (k - 1) * l)" by (simp only: of_int_1_le_iff)
    then have "1 \<le> (x - (of_int k - 1)) * of_int l"
      using \<open>(x - (of_int k - 1)) * of_int l = of_int (int n - (k - 1) * l)\<close> by simp
    then show ?thesis using lpos by (simp add: field_simps)
  qed
  have above: "1 / of_int l \<le> of_int k - x"
  proof -
    have e: "(of_int k - x) * of_int l = of_int (k * l - int n)"
      using xl by (simp add: algebra_simps)
    moreover have "0 < (of_int k - x) * of_int l"
      using kx(2) lpos by simp
    ultimately have "0 < k * l - int n" by (simp only: of_int_0_less_iff)
    then have "1 \<le> k * l - int n" by simp
    then have "(1::rat) \<le> of_int (k * l - int n)" by (simp only: of_int_1_le_iff)
    then have "1 \<le> (of_int k - x) * of_int l" using e by simp
    then show ?thesis using lpos by (simp add: field_simps)
  qed
  have err2: "y - x \<le> u / 2" "x - y \<le> u / 2"
    using err by linarith+
  have ylow: "of_int k - 1 < y"
    using err2(2) half below by linarith
  have yhigh: "y < of_int k"
    using err2(1) half above by linarith
  have ceil: "\<lceil>y\<rceil> = k"
    using ylow yhigh by (intro ceiling_unique) simp_all
  have "of_int k \<le> x + 1" using kx(1) by simp
  with yhigh xle have ysmall: "y < 2 ^ 53 + 1" by linarith
  have nooverflow: "\<not> 2 powi 1024 \<le> y"
  proof -
    have "(2::rat) powi 54 < 2 powi 1024"
      by (intro power_int_strict_increasing) simp_all
    moreover have "(2::rat) ^ 53 + 1 \<le> 2 powi 54" by simp
    ultimately show ?thesis using ysmall by linarith
  qed
  have absx: "\<bar>x\<bar> = x" using xpos by simp
  have "to_double x = JNum y"
    using to_double_normal [of r x] r rlow rhigh nooverflow xpos
    by (simp add: absx y_def m_def u_def)
  with ceil show ?thesis unfolding x_def k_def by simp
qed


subsection \<open>The pagination metadata\<close>

lemma whole_of_int [simp]: "whole (of_int k)"
  by (simp add: whole_def)

lemma regex_condition_same_store:
  "regex c' = regex c \<Longrightarrow> regex_condition c' = regex_condition c"
  by (intro ext) (simp add: regex_condition_def)

lemma matches_same_store:
  "regex c' = regex c \<Longrightarrow> text_search c' = text_search c \<Longrightarrow> matches c' mc = matches c mc"
  using regex_condition_same_store [of c' c]
  by (intro ext) (simp add: matches_def split: option.splits)

lemma patterns_accepted_same_store:
  "regex c' = regex c \<Longrightarrow> patterns_accepted c' mc = patterns_accepted c mc"
  by (simp add: patterns_accepted_def split: option.splits)

lemma build_matchConditions_store:
  "documents (snd (build_matchConditions params c)) = documents c"
  "regex (snd (build_matchConditions params c)) = regex c"
  "text_search (snd (build_matchConditions params c)) = text_search c"
  by (simp_all add: build_matchConditions_def probe_index_def
        split: option.splits prod.splits sum.splits)

lemma build_matchConditions_issue:
  "fst (build_matchConditions params (issue operation c)) = fst (build_matchConditions params c)"
  by (simp add: build_matchConditions_def probe_index_def
        split: option.splits prod.splits sum.splits)

lemma to_double_count: "n \<le> 2 ^ 53 \<Longrightarrow> to_double (of_nat n) = JNum (of_nat n)"
proof -
  assume "n \<le> 2 ^ 53"
  then have "\<bar>int n\<bar> \<le> 2 ^ 53"
    by (metis abs_of_nat of_nat_le_iff of_nat_numeral of_nat_power)
  from to_double_exact [OF this] show ?thesis by simp
qed

lemma total_of_count:
  assumes "length ds \<le> 2 ^ 53"
  shows "total_of (if ds = [] then [] else [[(''total'', Num (to_double (of_nat (length ds))))]])
           = JNum (of_nat (length ds))"
proof (cases ds)
  case Nil
  then show ?thesis by (simp add: total_of_def get_prop_def)
next
  case (Cons d ds')
  then have ne: "ds \<noteq> []" by simp
  show ?thesis
    unfolding to_double_count [OF assms] using ne by (simp add: total_of_def get_prop_def)
qed

lemma run_count_pipeline:
  "patterns_accepted c mc \<Longrightarrow>
   run_pipeline c (count_pipeline mc) ds =
     Inr (if filter (matches c mc) ds = [] then []
          else [[(''total'', Num (to_double (of_nat (length (filter (matches c mc) ds)))))]])"
  by (simp add: count_pipeline_def)

lemma run_count_pipeline_refused:
  "\<not> patterns_accepted c mc \<Longrightarrow>
   run_pipeline c (count_pipeline mc) ds =
     Inl (MongoServerError 51091 ''Regular expression is invalid'')"
  by (simp add: count_pipeline_def)

text \<open>A document as the last two stages of the data pipeline leave it.\<close>

definition projected :: "obj \<Rightarrow> obj" where
  "projected d =
     filter (\<lambda>(k, v). k \<in> set (''id'' # product_fields))
       (set_prop ''id'' (id_toString (get_prop d ''_id'')) d)"

lemma run_data_pipeline:
  assumes "patterns_accepted c mc" and "0 \<le> k" and "k < 2 ^ 63" and "1 \<le> n" and "n < 2 ^ 63"
  shows "run_pipeline c (data_pipeline mc (JNum (of_int k)) (JNum (of_int n))) ds =
     Inr (map projected
            (take (nat n) (drop (nat k) (sort_key (\<lambda>d. - created_key d) (filter (matches c mc) ds)))))"
proof -
  have "(of_int k :: rat) < 2 ^ 63" "(of_int n :: rat) < 2 ^ 63"
    using assms(3,5) by (metis of_int_less_iff of_int_numeral of_int_power)+
  with assms(1,2,4) show ?thesis
    by (simp add: data_pipeline_def projected_def take_map drop_map)
qed

text \<open>
  While \<open>page * limit\<close> is at most \<open>2^53\<close>, the skip is computed exactly.
\<close>

lemma skip_of_page:
  fixes p l :: int
  assumes "1 \<le> p" and "1 \<le> l" and "p * l \<le> 2 ^ 53"
    and "page params = JNum (of_int p)" and "limit params = JNum (of_int l)"
  shows "skip_of params = JNum (of_int ((p - 1) * l))"
proof -
  have pl: "p \<le> p * l" using assms(1,2) by (simp add: mult_le_cancel_left1)
  have "p \<le> 2 ^ 53" using pl assms(3) by (rule order_trans)
  then have "\<bar>p - 1\<bar> \<le> 2 ^ 53" using assms(1) by simp
  then have sub: "to_double (of_int (p - 1)) = JNum (of_int (p - 1))"
    by (rule to_double_exact)
  have "(p - 1) * l \<le> p * l" using assms(1,2) by (simp add: mult_right_mono)
  moreover have "0 \<le> (p - 1) * l" using assms(1,2) by simp
  ultimately have "\<bar>(p - 1) * l\<bar> \<le> 2 ^ 53" using assms(3) by linarith
  then have mul: "to_double (of_int ((p - 1) * l)) = JNum (of_int ((p - 1) * l))"
    by (rule to_double_exact)
  have "js_sub (JNum (of_int p)) (JNum 1) = JNum (of_int (p - 1))"
    using sub by simp
  moreover have "js_mul (JNum (of_int (p - 1))) (JNum (of_int l)) = JNum (of_int ((p - 1) * l))"
    using mul by simp
  ultimately show ?thesis by (simp add: skip_of_def assms(4,5))
qed

lemma total_pages:
  fixes n :: nat and l :: int
  assumes "n \<le> 2 ^ 53" and "1 \<le> l" and "l \<le> 1000"
  shows "js_ceil (js_div (JNum (of_nat n)) (JNum (of_int l)))
           = JNum (of_int \<lceil>of_nat n / of_int l :: rat\<rceil>)"
proof -
  from to_double_quotient [OF assms] obtain y
    where "to_double (of_nat n / of_int l) = JNum y"
      and "\<lceil>y\<rceil> = \<lceil>of_nat n / of_int l :: rat\<rceil>"
    by blast
  with assms(2) show ?thesis by simp
qed





text \<open>A filter whose pattern the store rejects makes the query throw the store's error.\<close>

lemma getProductsPaginated_refused:
  assumes mc: "mc = fst (build_matchConditions params c)"
    and refused: "\<not> patterns_accepted c mc"
  shows "fst (getProductsPaginated params c) =
           Inl (MongoServerError 51091 ''Regular expression is invalid'')"
proof -
  let ?c1 = "issue op_countDocuments c"
  obtain mc' c2 where b: "build_matchConditions params ?c1 = (mc', c2)"
    by (cases "build_matchConditions params ?c1")
  have mc': "mc' = mc"
    using b mc build_matchConditions_issue [of params op_countDocuments c] by simp
  have c2: "regex c2 = regex c"
    using b build_matchConditions_store [of params ?c1] by simp
  have "\<not> patterns_accepted c2 mc"
    using c2 refused patterns_accepted_same_store [of c2 c mc] by simp
  then have "aggregate (count_pipeline mc) c2 =
      (Inl (MongoServerError 51091 ''Regular expression is invalid''), issue op_aggregate c2)"
    by (simp add: aggregate_def run_count_pipeline_refused)
  then show ?thesis
    unfolding getProductsPaginated_def countDocuments_def
    using b mc' by (simp add: Let_def)
qed


subsection \<open>Creating a product and looking it up\<close>

lemma get_prop_Nil: "get_prop [] k = Undefined"
  by (simp add: get_prop_def)

lemma get_prop_Cons: "get_prop ((k, v) # ob) k' = (if k' = k then v else get_prop ob k')"
  by (simp add: get_prop_def)

lemma get_prop_set_prop:
  "get_prop (set_prop k v ob) k' = (if k' = k then v else get_prop ob k')"
  by (simp add: get_prop_def set_prop_def update_conv)

lemma has_prop_set_prop:
  "has_prop (set_prop k v ob) k' = (k' = k \<or> has_prop ob k')"
  by (simp add: has_prop_def set_prop_def update_conv)

lemma get_prop_copy_props:
  "get_prop (copy_props names source target) k =
     (if k \<in> set names then get_prop source k else get_prop target k)"
  unfolding copy_props_def
  by (induction names arbitrary: target) (auto simp: get_prop_set_prop)

lemma has_prop_copy_props:
  "has_prop (copy_props names source target) k = (k \<in> set names \<or> has_prop target k)"
  unfolding copy_props_def
  by (induction names arbitrary: target) (auto simp: has_prop_set_prop)

lemma get_prop_spread:
  "get_prop (spread b a) k =
     (case map_of (rev b) k of None \<Rightarrow> get_prop a k | Some v \<Rightarrow> v)"
  unfolding spread_def
proof (induction b arbitrary: a)
  case Nil
  then show ?case by simp
next
  case (Cons x xs)
  obtain k0 v0 where x: "x = (k0, v0)" by (cases x)
  show ?case
    by (simp add: Cons.IH x get_prop_set_prop map_add_def split: option.splits)
qed

lemma get_prop_spread_absent:
  "k \<notin> fst ` set b \<Longrightarrow> get_prop (spread b a) k = get_prop a k"
  by (simp add: get_prop_spread map_of_eq_None_iff [THEN iffD2])

lemma get_prop_spread_present:
  "k \<in> fst ` set b \<Longrightarrow> get_prop (spread b a) k = get_prop (spread b []) k"
  by (auto simp: get_prop_spread map_of_eq_None_iff split: option.splits)

lemma find_append_absent:
  "\<not> list_ex P xs \<Longrightarrow> find P (xs @ ys) = find P ys"
  by (induction xs) auto


lemma map_of_rev_distinct:
  "distinct (map fst xs) \<Longrightarrow> map_of (rev xs) = map_of xs"
  by (subst map_of_inject_set) (simp_all add: rev_map [symmetric])

lemma get_prop_spread_distinct:
  assumes "distinct (map fst b)"
  shows "get_prop (spread b a) k = (if k \<in> fst ` set b then get_prop b k else get_prop a k)"
proof (cases "map_of b k")
  case None
  then have "k \<notin> fst ` set b" by (simp add: map_of_eq_None_iff)
  with None show ?thesis
    by (simp add: get_prop_spread map_of_rev_distinct [OF assms])
next
  case (Some v)
  then have "k \<in> fst ` set b" by (metis map_of_eq_None_iff option.distinct(1))
  moreover have "get_prop (spread b a) k = v"
    using Some by (simp add: get_prop_spread map_of_rev_distinct [OF assms])
  moreover have "get_prop b k = v"
    using Some by (simp add: get_prop_def)
  ultimately show ?thesis by simp
qed

lemma not_product_fields:
  "''_id'' \<notin> set product_fields" "''id'' \<notin> set product_fields"
  by (simp_all add: product_fields_def)

lemma not_created_fields:
  "''_id'' \<notin> set created_fields" "''id'' \<notin> set created_fields"
  "''createdAt'' \<notin> set created_fields" "''updatedAt'' \<notin> set created_fields"
  by (simp_all add: created_fields_def)

text \<open>The document that \<open>createProduct\<close> stores, and the two products of the round trip.\<close>

definition stored_product :: "nat \<Rightarrow> nat \<Rightarrow> string \<Rightarrow> obj \<Rightarrow> obj" where
  "stored_product now now' generated productData =
     set_prop ''_id'' (Oid generated)
       (set_prop ''updatedAt'' (Date now')
          (set_prop ''createdAt'' (Date now) (spread productData [])))"

definition created_product :: "string \<Rightarrow> obj \<Rightarrow> obj" where
  "created_product generated productData =
     copy_props created_fields productData (spread productData [(''id'', Str generated)])"

definition fetched_product :: "nat \<Rightarrow> nat \<Rightarrow> string \<Rightarrow> obj \<Rightarrow> obj" where
  "fetched_product now now' generated productData =
     copy_props product_fields (stored_product now now' generated productData)
       [(''id'', Str generated)]"

lemma createProduct_fresh:
  assumes "\<not> list_ex (\<lambda>d. get_prop d ''_id'' = Oid generated) (documents c)"
  shows "createProduct now now' generated productData c =
           (Inr (created_product generated productData),
            issue op_insertOne
              (c\<lparr>documents := documents c @ [stored_product now now' generated productData]\<rparr>))"
  using assms
  by (simp add: createProduct_def insertOne_def Let_def created_product_def stored_product_def)

lemma getProductById_stored:
  assumes fresh: "\<not> list_ex (\<lambda>d. get_prop d ''_id'' = Oid generated) (documents c)"
    and valid: "ObjectId ident = Inr generated"
  shows "fst (getProductById ident
            (snd (createProduct now now' generated productData c))) =
           Inr (Some (fetched_product now now' generated productData))"
proof -
  let ?stored = "stored_product now now' generated productData"
  have id_stored: "get_prop ?stored ''_id'' = Oid generated"
    by (simp add: stored_product_def get_prop_set_prop)
  have "find (\<lambda>d. get_prop d ''_id'' = Oid generated) (documents c @ [?stored]) = Some ?stored"
    using fresh id_stored by (simp add: find_append_absent)
  then show ?thesis
    using valid id_stored
    by (simp add: createProduct_fresh [OF fresh] getProductById_def findOne_def
          fetched_product_def oid_string_def)
qed

text \<open>
  The names that \<open>createProduct\<close> writes explicitly are properties of its result, and
  every normalized name is a property of the product that \<open>getProductById\<close> builds, also
  when the value is \<open>undefined\<close>.
\<close>

lemma explicit_fields_present:
  "k \<in> set created_fields \<Longrightarrow> has_prop (created_product generated productData) k"
  "k \<in> set product_fields \<Longrightarrow>
     has_prop (fetched_product now now' generated productData) k"
  by (simp_all add: created_product_def fetched_product_def has_prop_copy_props)

text \<open>
  For an argument of the declared type (an object without \<open>id\<close>, \<open>_id\<close>, \<open>createdAt\<close> and
  \<open>updatedAt\<close>), the product that \<open>createProduct\<close> returns and the product that
  \<open>getProductById\<close> then returns agree on \<open>id\<close> and on every normalized field except the
  two timestamps: the stored document and the fetched product carry them, the product
  returned by \<open>createProduct\<close> does not.
\<close>

lemma round_trip_fields:
  assumes wf: "distinct (map fst productData)"
    and typed: "''id'' \<notin> fst ` set productData" "''_id'' \<notin> fst ` set productData"
      "''createdAt'' \<notin> fst ` set productData" "''updatedAt'' \<notin> fst ` set productData"
  shows "get_prop (fetched_product now now' generated productData) ''id''
           = get_prop (created_product generated productData) ''id''"
    and "k \<in> set product_fields \<Longrightarrow> k \<noteq> ''createdAt'' \<Longrightarrow> k \<noteq> ''updatedAt'' \<Longrightarrow>
         get_prop (fetched_product now now' generated productData) k
           = get_prop (created_product generated productData) k"
    and "get_prop (created_product generated productData) ''createdAt'' = Undefined"
    and "get_prop (fetched_product now now' generated productData) ''createdAt'' = Date now"
    and "get_prop (created_product generated productData) ''updatedAt'' = Undefined"
    and "get_prop (fetched_product now now' generated productData) ''updatedAt'' = Date now'"
proof -
  have absent: "k \<notin> fst ` set productData \<Longrightarrow> get_prop productData k = Undefined" for k
    by (simp add: get_prop_def map_of_eq_None_iff [THEN iffD2])
  show "get_prop (fetched_product now now' generated productData) ''id''
           = get_prop (created_product generated productData) ''id''"
    using typed(1)
    by (simp add: fetched_product_def created_product_def get_prop_copy_props
          not_product_fields not_created_fields get_prop_spread_absent get_prop_Cons get_prop_Nil)
  show "get_prop (fetched_product now now' generated productData) k
           = get_prop (created_product generated productData) k"
    if k: "k \<in> set product_fields" "k \<noteq> ''createdAt''" "k \<noteq> ''updatedAt''"
  proof -
    from k(1) have k': "k \<noteq> ''_id''" "k \<noteq> ''id''"
      using not_product_fields by auto
    have f: "get_prop (fetched_product now now' generated productData) k = get_prop productData k"
      using k k' absent [of k]
      by (simp add: fetched_product_def stored_product_def get_prop_copy_props
            get_prop_set_prop get_prop_spread_distinct [OF wf] get_prop_Cons get_prop_Nil)
    have c: "get_prop (created_product generated productData) k = get_prop productData k"
      using k' absent [of k]
      by (simp add: created_product_def get_prop_copy_props
            get_prop_spread_distinct [OF wf] get_prop_Cons get_prop_Nil)
    from f c show ?thesis by simp
  qed
  show "get_prop (created_product generated productData) ''createdAt'' = Undefined"
    using typed(3)
    by (simp add: created_product_def get_prop_copy_props not_created_fields
          get_prop_spread_absent get_prop_Cons get_prop_Nil)
  show "get_prop (created_product generated productData) ''updatedAt'' = Undefined"
    using typed(4)
    by (simp add: created_product_def get_prop_copy_props not_created_fields
          get_prop_spread_absent get_prop_Cons get_prop_Nil)
  show "get_prop (fetched_product now now' generated productData) ''createdAt'' = Date now"
    by (simp add: fetched_product_def stored_product_def get_prop_copy_props
          get_prop_set_prop product_fields_def)
  show "get_prop (fetched_product now now' generated productData) ''updatedAt'' = Date now'"
    by (simp add: fetched_product_def stored_product_def get_prop_copy_props
          get_prop_set_prop product_fields_def)
qed

text \<open>The product of the specification's scenario.\<close>

definition mug :: obj where
  "mug = [(''name'', Str ''Mug''), (''price'', Num (JNum 10)), (''categoryId'', Str ''c1''),
          (''hasVariations'', Bool False), (''frontImage'', Str ''u1'')]"

lemma mug_keys:
  "distinct (map fst mug)" "''id'' \<notin> fst ` set mug" "''_id'' \<notin> fst ` set mug"
  "''createdAt'' \<notin> fst ` set mug" "''updatedAt'' \<notin> fst ` set mug"
  by (simp_all add: mug_def)

lemma created_product_mug:
  "created_product ''65a1b2c3d4e5f60718293a4b'' mug =
     [(''id'', Str ''65a1b2c3d4e5f60718293a4b''), (''name'', Str ''Mug''),
      (''price'', Num (JNum 10)), (''categoryId'', Str ''c1''), (''hasVariations'', Bool False),
      (''frontImage'', Str ''u1''), (''variations'', Undefined),
      (''eligibleForCoupons'', Undefined), (''type'', Undefined), (''baseColor'', Undefined),
      (''angles'', Undefined), (''colors'', Undefined), (''purchaseLimit'', Undefined),
      (''backImage'', Undefined), (''leftImage'', Undefined), (''rightImage'', Undefined),
      (''materialImage'', Undefined), (''frontAltText'', Undefined),
      (''backAltText'', Undefined), (''leftAltText'', Undefined),
      (''rightAltText'', Undefined), (''materialAltText'', Undefined)]"
  by (simp add: created_product_def copy_props_def created_fields_def spread_def mug_def
        set_prop_def get_prop_def)

text \<open>
  Claim C4, at the product of the specification's scenario. The product is created in
  the empty collection and fetched with the identifier that \<open>createProduct\<close> returned. The
  fetched product has \<open>createdAt\<close> and \<open>updatedAt\<close>; in the product that \<open>createProduct\<close>
  returned both are \<open>undefined\<close>, so the two do not have identical field values.
\<close>

theorem create_then_getById_timestamps:
  "fst (createProduct 1700000000000 1700000000001 ''65a1b2c3d4e5f60718293a4b'' mug
          empty_collection)
     = Inr (created_product ''65a1b2c3d4e5f60718293a4b'' mug)
   \<and> get_prop (created_product ''65a1b2c3d4e5f60718293a4b'' mug) ''id''
       = Str ''65a1b2c3d4e5f60718293a4b''
   \<and> fst (getProductById ''65a1b2c3d4e5f60718293a4b''
            (snd (createProduct 1700000000000 1700000000001 ''65a1b2c3d4e5f60718293a4b'' mug
                    empty_collection)))
       = Inr (Some (fetched_product 1700000000000 1700000000001
                      ''65a1b2c3d4e5f60718293a4b'' mug))
   \<and> get_prop (created_product ''65a1b2c3d4e5f60718293a4b'' mug) ''createdAt'' = Undefined
   \<and> get_prop (fetched_product 1700000000000 1700000000001 ''65a1b2c3d4e5f60718293a4b'' mug)
         ''createdAt'' = Date 1700000000000
   \<and> get_prop (created_product ''65a1b2c3d4e5f60718293a4b'' mug) ''updatedAt'' = Undefined
   \<and> get_prop (fetched_product 1700000000000 1700000000001 ''65a1b2c3d4e5f60718293a4b'' mug)
         ''updatedAt'' = Date 1700000000001"
proof -
  have fresh: "\<not> list_ex (\<lambda>d. get_prop d ''_id'' = Oid ''65a1b2c3d4e5f60718293a4b'')
                 (documents empty_collection)"
    by (simp add: empty_collection_def)
  have valid: "ObjectId ''65a1b2c3d4e5f60718293a4b'' = Inr ''65a1b2c3d4e5f60718293a4b''"
    by (simp add: ObjectId_def hex_digit_def lower_hex_def)
  have ident: "get_prop (created_product ''65a1b2c3d4e5f60718293a4b'' mug) ''id''
       = Str ''65a1b2c3d4e5f60718293a4b''"
    by (simp add: created_product_mug get_prop_def)
  show ?thesis
    using createProduct_fresh [OF fresh, of 1700000000000 1700000000001 mug]
      getProductById_stored [OF fresh valid, of 1700000000000 1700000000001 mug]
      round_trip_fields(3) [OF mug_keys, of "''65a1b2c3d4e5f60718293a4b''"]
      round_trip_fields(4) [OF mug_keys, of 1700000000000 1700000000001
        "''65a1b2c3d4e5f60718293a4b''"]
      round_trip_fields(5) [OF mug_keys, of "''65a1b2c3d4e5f60718293a4b''"]
      round_trip_fields(6) [OF mug_keys, of 1700000000000 1700000000001
        "''65a1b2c3d4e5f60718293a4b''"] ident
    by simp
qed

subsection \<open>The search filter\<close>

text \<open>
  The first component of the query's result as a function of the filter and the store,
  without the record of the operations.
\<close>

definition paginated_outcome ::
  "PaginationParams \<Rightarrow> matchConditions \<Rightarrow> collection \<Rightarrow> store_error + obj PaginatedResult" where
  "paginated_outcome params mc c =
     (case run_pipeline c (count_pipeline mc) (documents c) of
        Inl err \<Rightarrow> Inl err
      | Inr countResult \<Rightarrow>
          (case run_pipeline c
                  (data_pipeline mc (skip_of params)
                     (limit params)) (documents c) of
             Inl err \<Rightarrow> Inl err
           | Inr products \<Rightarrow>
               Inr \<lparr>data = products,
                    pagination_meta =
                      \<lparr>page = page params, limit = limit params,
                       total_docs = total_of countResult,
                       totalPages = js_ceil (js_div (total_of countResult) (limit params)),
                       hasNext = js_lt (page params)
                                   (js_ceil (js_div (total_of countResult) (limit params))),
                       hasPrev = js_gt (page params) (JNum 1)\<rparr>\<rparr>))"

lemma run_stage_same_store:
  assumes "regex c' = regex c" and "text_search c' = text_search c"
  shows "run_stage c' st ds = run_stage c st ds"
  using matches_same_store [OF assms] patterns_accepted_same_store [OF assms(1)]
  by (cases st) simp_all

lemma run_pipeline_same_store:
  assumes "regex c' = regex c" and "text_search c' = text_search c"
  shows "run_pipeline c' sts ds = run_pipeline c sts ds"
  by (induction sts arbitrary: ds)
     (simp_all add: run_stage_same_store [OF assms] split: sum.splits)

lemma paginated_outcome_same_store:
  assumes "regex c' = regex c" and "text_search c' = text_search c"
    and "documents c' = documents c"
  shows "paginated_outcome params mc c' = paginated_outcome params mc c"
proof -
  have "run_pipeline c' = run_pipeline c"
    using run_pipeline_same_store [OF assms(1,2)] by (intro ext)
  then show ?thesis
    by (simp add: paginated_outcome_def assms(3) cong: sum.case_cong)
qed

lemma getProductsPaginated_outcome:
  "fst (getProductsPaginated params c) =
     paginated_outcome params (fst (build_matchConditions params c)) c"
proof -
  let ?c1 = "issue op_countDocuments c"
  obtain mc c2 where b: "build_matchConditions params ?c1 = (mc, c2)"
    by (cases "build_matchConditions params ?c1")
  have mc: "fst (build_matchConditions params c) = mc"
    using b build_matchConditions_issue [of params op_countDocuments c] by simp
  have c2: "documents c2 = documents c" "regex c2 = regex c" "text_search c2 = text_search c"
    using b build_matchConditions_store [of params ?c1] by simp_all
  have r2: "run_pipeline c2 = run_pipeline c"
    "run_pipeline (issue op_aggregate c2) = run_pipeline c"
    using run_pipeline_same_store [of c2 c] run_pipeline_same_store [of "issue op_aggregate c2" c] c2
    by (auto intro!: ext)
  show ?thesis
    unfolding getProductsPaginated_def countDocuments_def paginated_outcome_def aggregate_def
    using b mc c2 r2
    by (simp add: Let_def cong: sum.case_cong split: sum.splits)
qed

text \<open>
  The page \<open>p\<close> of size \<open>l\<close> of a list of found documents with its metadata, in the
  specification's words: the documents after the \<open>(p - 1) * l\<close> newest, \<open>total\<close> their
  number, \<open>totalPages\<close> the ceiling of \<open>total / l\<close>.
\<close>

definition spec_page :: "int \<Rightarrow> int \<Rightarrow> obj list \<Rightarrow> obj PaginatedResult" where
  "spec_page p l found =
     \<lparr>data = map projected
               (take (nat l) (drop (nat ((p - 1) * l)) (sort_key (\<lambda>d. - created_key d) found))),
      pagination_meta =
        \<lparr>page = JNum (of_int p), limit = JNum (of_int l),
         total_docs = JNum (of_nat (length found)),
         totalPages = JNum (of_int \<lceil>of_nat (length found) / of_int l :: rat\<rceil>),
         hasNext = (p < \<lceil>of_nat (length found) / of_int l :: rat\<rceil>),
         hasPrev = (1 < p)\<rparr>\<rparr>"

lemma paginated_outcome_page:
  fixes p l :: int
  assumes "1 \<le> p" and "1 \<le> l" and "l \<le> 1000" and "p * l \<le> 2 ^ 53"
    and fields: "page params = JNum (of_int p)" "limit params = JNum (of_int l)"
    and accepted: "patterns_accepted c mc"
    and size: "length (documents c) \<le> 2 ^ 53"
  shows "paginated_outcome params mc c = Inr (spec_page p l (filter (matches c mc) (documents c)))"
proof -
  let ?found = "filter (matches c mc) (documents c)"
  have "length ?found \<le> length (documents c)" by simp
  then have found: "length ?found \<le> 2 ^ 53" using size by (rule order_trans)
  have skip0: "0 \<le> (p - 1) * l" using assms(1,2) by simp
  have "(p - 1) * l \<le> p * l" using assms(1,2) by (simp add: mult_right_mono)
  then have "(p - 1) * l \<le> 2 ^ 53" using assms(4) by (rule order_trans)
  then have skip63: "(p - 1) * l < 2 ^ 63" by simp
  have l63: "l < 2 ^ 63" using assms(3) by simp
  have skip: "skip_of params = JNum (of_int ((p - 1) * l))"
    by (rule skip_of_page [OF assms(1,2,4) fields])
  have counted: "run_pipeline c (count_pipeline mc) (documents c) =
      Inr (if ?found = [] then []
           else [[(''total'', Num (to_double (of_nat (length ?found))))]])"
    by (rule run_count_pipeline [OF accepted])
  have total: "total_of (if ?found = [] then []
                 else [[(''total'', Num (to_double (of_nat (length ?found))))]])
               = JNum (of_nat (length ?found))"
    by (rule total_of_count [OF found])
  have pages: "js_ceil (js_div (JNum (of_nat (length ?found))) (JNum (of_int l)))
                 = JNum (of_int \<lceil>of_nat (length ?found) / of_int l :: rat\<rceil>)"
    by (rule total_pages [OF found assms(2,3)])
  have page_data: "run_pipeline c
              (data_pipeline mc (JNum (of_int ((p - 1) * l))) (JNum (of_int l))) (documents c) =
      Inr (map projected (take (nat l) (drop (nat ((p - 1) * l))
              (sort_key (\<lambda>d. - created_key d) ?found))))"
    by (rule run_data_pipeline [OF accepted skip0 skip63 assms(2) l63])
  have lt: "js_lt (JNum (of_int p)) (JNum (of_int \<lceil>of_nat (length ?found) / of_int l :: rat\<rceil>))
              = (p < \<lceil>of_nat (length ?found) / of_int l :: rat\<rceil>)"
    by simp
  have gt: "js_gt (JNum (of_int p)) (JNum 1) = (1 < p)"
    by (simp add: js_gt_def)
  show ?thesis
    unfolding paginated_outcome_def spec_page_def
    by (simp only: counted skip fields page_data total pages lt gt sum.case)
qed

text \<open>
  The filter that the query builds. A blank search term (empty after \<open>trim\<close>) is not
  searched and no probe is made. Otherwise a probe that is rejected, or that answers that
  there is no index, gives the two case-insensitive \<open>$regex\<close> conditions on \<open>name\<close> and
  \<open>description\<close>, and a probe that answers that the index is there gives the \<open>$text\<close>
  search.
\<close>

lemma trim_Nil: "trim [] = []"
  by (simp add: trim_def)

lemma build_matchConditions_fallback:
  assumes "search params = Some s" and "trim s \<noteq> []"
    and "indexExists c ''product_search_index'' \<noteq> Inr True"
  shows "fst (build_matchConditions params c) =
           \<lparr>match_categoryId = category_filter (categoryId params), match_text = None,
            match_or = Some [(''name'', s, ''i''), (''description'', s, ''i'')]\<rparr>"
proof -
  have "s \<noteq> []" using assms(2) trim_Nil by auto
  with assms show ?thesis
    by (cases "indexExists c ''product_search_index''")
       (simp_all add: build_matchConditions_def probe_index_def regex_fallback_def)
qed

lemma build_matchConditions_text:
  assumes "search params = Some s" and "trim s \<noteq> []"
    and "indexExists c ''product_search_index'' = Inr True"
  shows "fst (build_matchConditions params c) =
           \<lparr>match_categoryId = category_filter (categoryId params), match_text = Some s,
            match_or = None\<rparr>"
proof -
  have "s \<noteq> []" using assms(2) trim_Nil by auto
  with assms show ?thesis
    by (simp add: build_matchConditions_def probe_index_def)
qed


text \<open>The error of a rejected probe is caught: the query gives what an absent index gives.\<close>

lemma rejected_probe_as_absent:
  "fst (getProductsPaginated params (c\<lparr>indexExists := (\<lambda>name. Inl e)\<rparr>))
     = fst (getProductsPaginated params (c\<lparr>indexExists := (\<lambda>name. Inr False)\<rparr>))"
proof -
  let ?rejected = "c\<lparr>indexExists := (\<lambda>name. Inl e)\<rparr>"
  let ?absent = "c\<lparr>indexExists := (\<lambda>name. Inr False)\<rparr>"
  have mc: "fst (build_matchConditions params ?rejected) = fst (build_matchConditions params ?absent)"
    by (simp add: build_matchConditions_def probe_index_def split: option.splits)
  have "paginated_outcome params (fst (build_matchConditions params ?absent)) ?rejected
          = paginated_outcome params (fst (build_matchConditions params ?absent)) ?absent"
    by (rule paginated_outcome_same_store) simp_all
  then show ?thesis
    by (simp add: getProductsPaginated_outcome mc)
qed

text \<open>
  The specification's words, not the code's: a case-insensitive substring match of a term
  over \<open>name\<close> and \<open>description\<close>, and a term present only in the description. The case
  of the letters from \<open>A\<close> to \<open>Z\<close> is ignored.
\<close>

definition lower_ascii :: "char \<Rightarrow> char" where
  "lower_ascii ch =
     (case map_of (zip ''ABCDEFGHIJKLMNOPQRSTUVWXYZ'' ''abcdefghijklmnopqrstuvwxyz'') ch of
        None \<Rightarrow> ch
      | Some l \<Rightarrow> l)"

fun starts_with :: "string \<Rightarrow> string \<Rightarrow> bool" where
  "starts_with [] s = True"
| "starts_with (t # ts) [] = False"
| "starts_with (t # ts) (ch # s) = (t = ch \<and> starts_with ts s)"

fun contains :: "string \<Rightarrow> string \<Rightarrow> bool" where
  "contains t [] = (t = [])"
| "contains t (ch # s) = (starts_with t (ch # s) \<or> contains t s)"

definition contains_ci :: "string \<Rightarrow> string \<Rightarrow> bool" where
  "contains_ci t s = contains (map lower_ascii t) (map lower_ascii s)"

definition field_contains :: "string \<Rightarrow> string \<Rightarrow> obj \<Rightarrow> bool" where
  "field_contains field t d = (case get_prop d field of Str s \<Rightarrow> contains_ci t s | _ \<Rightarrow> False)"

definition spec_substring_match :: "string \<Rightarrow> obj \<Rightarrow> bool" where
  "spec_substring_match t d = (field_contains ''name'' t d \<or> field_contains ''description'' t d)"


text \<open>The category filter of the query: no category, or \<open>all\<close>, lets every document pass.\<close>

definition in_category :: "string option \<Rightarrow> obj \<Rightarrow> bool" where
  "in_category cat d =
     (case category_filter cat of None \<Rightarrow> True | Some k \<Rightarrow> get_prop d ''categoryId'' = Str k)"

text \<open>
  What the three filters select. On the fallback path this is relative to a store that
  reads the term as literal text; a term is sent to the store as it is, as a regular
  expression.
\<close>

lemma matches_fallback:
  assumes "regex c s ''i'' = Some (contains_ci s)"
  shows "matches c \<lparr>match_categoryId = category_filter cat, match_text = None,
                    match_or = Some [(''name'', s, ''i''), (''description'', s, ''i'')]\<rparr>
           = (\<lambda>d. in_category cat d \<and> spec_substring_match s d)"
  by (intro ext)
     (simp add: matches_def regex_condition_def assms in_category_def spec_substring_match_def
        field_contains_def)

lemma matches_text:
  "matches c \<lparr>match_categoryId = category_filter cat, match_text = Some s, match_or = None\<rparr>
     = (\<lambda>d. in_category cat d \<and> text_search c s d)"
  by (intro ext) (simp add: matches_def in_category_def)


text \<open>The result of the query on each path, for a valid page and limit.\<close>

lemma fallback_result:
  fixes p l :: int
  assumes "1 \<le> p" and "1 \<le> l" and "l \<le> 1000" and "p * l \<le> 2 ^ 53"
    and params: "params = \<lparr>page = JNum (of_int p), limit = JNum (of_int l),
                          search = Some s, categoryId = cat\<rparr>"
    and size: "length (documents c) \<le> 2 ^ 53"
    and literal: "regex c s ''i'' = Some (contains_ci s)"
    and searched: "trim s \<noteq> []"
    and probe: "indexExists c ''product_search_index'' \<noteq> Inr True"
  shows "fst (getProductsPaginated params c) =
           Inr (spec_page p l
                  (filter (\<lambda>d. in_category cat d \<and> spec_substring_match s d) (documents c)))"
proof -
  let ?mc = "\<lparr>match_categoryId = category_filter cat, match_text = None,
              match_or = Some [(''name'', s, ''i''), (''description'', s, ''i'')]\<rparr>"
  have fields: "page params = JNum (of_int p)" "limit params = JNum (of_int l)"
    "search params = Some s" "categoryId params = cat"
    by (simp_all add: params)
  have mc: "fst (build_matchConditions params c) = ?mc"
    using build_matchConditions_fallback [OF fields(3) searched probe] fields(4) by simp
  have accepted: "patterns_accepted c ?mc"
    by (simp add: patterns_accepted_def literal)
  show ?thesis
    unfolding getProductsPaginated_outcome mc
      paginated_outcome_page [OF assms(1-4) fields(1,2) accepted size]
      matches_fallback [OF literal]
    by (rule refl)
qed

lemma text_result:
  fixes p l :: int
  assumes "1 \<le> p" and "1 \<le> l" and "l \<le> 1000" and "p * l \<le> 2 ^ 53"
    and params: "params = \<lparr>page = JNum (of_int p), limit = JNum (of_int l),
                          search = Some s, categoryId = cat\<rparr>"
    and size: "length (documents c) \<le> 2 ^ 53"
    and searched: "trim s \<noteq> []"
    and probe: "indexExists c ''product_search_index'' = Inr True"
  shows "fst (getProductsPaginated params c) =
           Inr (spec_page p l
                  (filter (\<lambda>d. in_category cat d \<and> text_search c s d) (documents c)))"
proof -
  let ?mc = "\<lparr>match_categoryId = category_filter cat, match_text = Some s, match_or = None\<rparr>"
  have fields: "page params = JNum (of_int p)" "limit params = JNum (of_int l)"
    "search params = Some s" "categoryId params = cat"
    by (simp_all add: params)
  have mc: "fst (build_matchConditions params c) = ?mc"
    using build_matchConditions_text [OF fields(3) searched probe] fields(4) by simp
  have accepted: "patterns_accepted c ?mc"
    by (simp add: patterns_accepted_def)
  show ?thesis
    unfolding getProductsPaginated_outcome mc
      paginated_outcome_page [OF assms(1-4) fields(1,2) accepted size]
      matches_text
    by (rule refl)
qed



text \<open>
  Two stores for the scenario of the specification. Both read every pattern as literal
  text, and their text search selects a document when the term is one of the words of
  its name or of its description, whatever the case. The probe of the first is rejected;
  the second has the search index.
\<close>

definition literal_regex :: "string \<Rightarrow> string \<Rightarrow> (string \<Rightarrow> bool) option" where
  "literal_regex pattern opts =
     Some (if CHR ''i'' \<in> set opts then contains_ci pattern else contains pattern)"

fun words_of :: "string \<Rightarrow> string list" where
  "words_of [] = [[]]"
| "words_of (ch # s) =
     (if ch = CHR '' '' then [] # words_of s
      else (case words_of s of [] \<Rightarrow> [[ch]] | w # ws \<Rightarrow> (ch # w) # ws))"

definition word_search :: "string \<Rightarrow> obj \<Rightarrow> bool" where
  "word_search t d =
     list_ex (\<lambda>field. case get_prop d field of
                         Str s \<Rightarrow> map lower_ascii t \<in> set (words_of (map lower_ascii s))
                       | _ \<Rightarrow> False)
       [''name'', ''description'']"

definition mug_document :: obj where
  "mug_document =
     [(''_id'', Oid ''65a1b2c3d4e5f60718293a4b''), (''name'', Str ''Mug''),
      (''description'', Str ''Ceramic''), (''createdAt'', Date 1700000000000)]"

definition unprobed_catalogue :: collection where
  "unprobed_catalogue =
     \<lparr>documents = [mug_document],
      indexExists = (\<lambda>name. Inl (MongoServerError 26 ''ns does not exist'')),
      text_search = word_search, regex = literal_regex, issued = []\<rparr>"

definition indexed_catalogue :: collection where
  "indexed_catalogue =
     \<lparr>documents = [mug_document],
      indexExists = (\<lambda>name. Inr (name = ''product_search_index'')),
      text_search = word_search, regex = literal_regex, issued = []\<rparr>"


lemma mug_fields:
  "get_prop mug_document ''name'' = Str ''Mug''"
  "get_prop mug_document ''description'' = Str ''Ceramic''"
  by (simp_all add: mug_document_def get_prop_def)






text \<open>
  The two paths need not find the same documents. On the stores above, \<open>eram\<close> is a part
  of the description and not one of its words: the fallback path finds the product and
  the text search does not.
\<close>

lemma paths_differ_on_part_of_word:
  "fst (getProductsPaginated
          \<lparr>page = JNum 1, limit = JNum 10, search = Some ''eram'', categoryId = None\<rparr>
          unprobed_catalogue) = Inr (spec_page 1 10 [mug_document])"
  "fst (getProductsPaginated
          \<lparr>page = JNum 1, limit = JNum 10, search = Some ''eram'', categoryId = None\<rparr>
          indexed_catalogue) = Inr (spec_page 1 10 [])"
proof -
  let ?q = "\<lparr>page = JNum 1, limit = JNum 10, search = Some ''eram'', categoryId = None\<rparr>"
  have q: "?q = \<lparr>page = JNum (of_int 1), limit = JNum (of_int 10), search = Some ''eram'',
                  categoryId = None\<rparr>"
    by simp
  have bounds: "(1::int) \<le> 1" "(1::int) \<le> 10" "(10::int) \<le> 1000" "(1::int) * 10 \<le> 2 ^ 53"
    by simp_all
  have searched: "trim ''eram'' \<noteq> []"
    by (simp add: trim_def js_whitespace_def)
  have docs: "documents unprobed_catalogue = [mug_document]"
    "documents indexed_catalogue = [mug_document]"
    by (simp_all add: unprobed_catalogue_def indexed_catalogue_def)
  have size: "length (documents unprobed_catalogue) \<le> 2 ^ 53"
    "length (documents indexed_catalogue) \<le> 2 ^ 53"
    by (simp_all add: docs)
  have literal: "regex unprobed_catalogue ''eram'' ''i'' = Some (contains_ci ''eram'')"
    by (simp add: unprobed_catalogue_def literal_regex_def)
  have rejected: "indexExists unprobed_catalogue ''product_search_index'' \<noteq> Inr True"
    by (simp add: unprobed_catalogue_def)
  have present: "indexExists indexed_catalogue ''product_search_index'' = Inr True"
    by (simp add: indexed_catalogue_def)
  have cat: "in_category None mug_document"
    by (simp add: in_category_def category_filter_def truthy_str_def)
  have part: "spec_substring_match ''eram'' mug_document"
    by (simp add: spec_substring_match_def field_contains_def mug_fields contains_ci_def
          lower_ascii_def)
  have word: "\<not> text_search indexed_catalogue ''eram'' mug_document"
    by (simp add: indexed_catalogue_def word_search_def mug_fields lower_ascii_def)
  show "fst (getProductsPaginated ?q unprobed_catalogue) = Inr (spec_page 1 10 [mug_document])"
    using fallback_result [OF bounds q size(1) literal searched rejected]
    by (simp add: docs cat part)
  show "fst (getProductsPaginated ?q indexed_catalogue) = Inr (spec_page 1 10 [])"
    using text_result [OF bounds q size(2) searched present]
    by (simp add: docs cat word)
qed

text \<open>
  Nor does the fallback keep a request from failing when the store rejects the term as a
  regular expression: the term is sent as it is.
\<close>

lemma fallback_fails_on_rejected_pattern:
  assumes "search params = Some s" and "trim s \<noteq> []"
    and "indexExists c ''product_search_index'' \<noteq> Inr True"
    and "regex c s ''i'' = None"
  shows "fst (getProductsPaginated params c) =
           Inl (MongoServerError 51091 ''Regular expression is invalid'')"
proof -
  have "\<not> patterns_accepted c (fst (build_matchConditions params c))"
    unfolding build_matchConditions_fallback [OF assms(1,2,3)]
    by (simp add: patterns_accepted_def assms(4))
  then show ?thesis
    by (rule getProductsPaginated_refused [OF refl])
qed

end
